theory Spec2Isabelle
  imports Main "HOL-Library.AList" "HOL-Library.Multiset"
begin

section \<open>Shared data\<close>

text \<open>
  JSON values as Python holds them after decoding: \<open>None\<close>, booleans, integers, strings,
  lists and dicts. A dict is an association list in insertion order. Floating-point numbers
  are left out.
\<close>

datatype json =
    JNull
  | JBool bool
  | JInt int
  | JStr string
  | JList "json list"
  | JObj "(string \<times> json) list"

text \<open>The exceptions the modelled code raises, each one a value.\<close>

datatype error =
    BadCodingError
  | InvalidFormat
  | MigrationSetupException
  | ModelDoesNotExist
  | KeyError
  | IndexError
  | TypeError
  | ValueError
  | CollaboratorError string

section \<open>Migrations: \<open>datastore/migrations/core/base_migration.py\<close>\<close>

text \<open>
  Modelled from the spec: the enum \<open>EVENT_TYPE\<close> and the event classes of
  \<open>migrations/core/events.py\<close> are declared outside the given sources. The spec names five
  event kinds; every event carries its fqid, and the class fixes the type tag. An update
  carries a data diff (a dict), a delete_fields event a list of field names, a list_update
  event the two dicts \<open>add\<close> and \<open>remove\<close> from field names to lists of values.
\<close>

datatype EVENT_TYPE = CREATE | UPDATE | DELETE | DELETE_FIELDS | LIST_UPDATE

datatype event =
    CreateEvent string "(string \<times> json) list"
  | UpdateEvent string "(string \<times> json) list"
  | DeleteEvent string
  | DeleteFieldsEvent string "string list"
  | ListUpdateEvent string "(string \<times> json list) list" "(string \<times> json list) list"

fun fqid :: "event \<Rightarrow> string" where
  "fqid (CreateEvent f d) = f"
| "fqid (UpdateEvent f d) = f"
| "fqid (DeleteEvent f) = f"
| "fqid (DeleteFieldsEvent f d) = f"
| "fqid (ListUpdateEvent f a r) = f"

fun type :: "event \<Rightarrow> EVENT_TYPE" where
  "type (CreateEvent f d) = CREATE"
| "type (UpdateEvent f d) = UPDATE"
| "type (DeleteEvent f) = DELETE"
| "type (DeleteFieldsEvent f d) = DELETE_FIELDS"
| "type (ListUpdateEvent f a r) = LIST_UPDATE"

subsection \<open>\<open>BaseMigration.__init__\<close>\<close>

record migration =
  name :: string
  target_migration_index :: int

text \<open>
  The class attribute defaults to \<open>-1\<close>; the constructor raises when it still has that
  value, and otherwise returns the instance.
\<close>

definition BaseMigration_init :: "string \<Rightarrow> int \<Rightarrow> error + migration" where
  "BaseMigration_init class_name tmi =
     (if tmi = - 1 then Inl MigrationSetupException
      else Inr \<lparr>name = class_name, target_migration_index = tmi\<rparr>)"

text \<open>
  Modelled from the spec: the spec speaks of a "valid index" without giving its range. A
  migration index is a schema version, counted from 1.
\<close>

definition valid_migration_index :: "int \<Rightarrow> bool" where
  "valid_migration_index i = (1 \<le> i)"

subsection \<open>\<open>_set_model_status\<close>\<close>

type_synonym model_status = "string \<rightharpoonup> EVENT_TYPE"

text \<open>One pass of the loop body: the dict is written only under the guard of the source.\<close>

definition set_model_status_step :: "model_status \<Rightarrow> event \<Rightarrow> model_status" where
  "set_model_status_step ms e =
     (if (type e = CREATE \<or> type e = DELETE) \<and> ms (fqid e) \<noteq> Some DELETE
      then ms(fqid e \<mapsto> type e) else ms)"

fun set_model_status_loop :: "model_status \<Rightarrow> event list \<Rightarrow> model_status" where
  "set_model_status_loop ms [] = ms"
| "set_model_status_loop ms (e # es) = set_model_status_loop (set_model_status_step ms e) es"

definition set_model_status :: "event list \<Rightarrow> model_status" where
  "set_model_status events = set_model_status_loop Map.empty events"

subsection \<open>\<open>order_events\<close>\<close>

text \<open>
  The generator yields a create event at once and queues every other event; the queue is
  yielded when the input is exhausted. The model returns the list of yielded events.
\<close>

fun order_events_loop :: "event list \<Rightarrow> event list \<Rightarrow> event list" where
  "order_events_loop events_queue [] = events_queue"
| "order_events_loop events_queue (e # es) =
     (if type e = CREATE then e # order_events_loop events_queue es
      else order_events_loop (events_queue @ [e]) es)"

definition order_events :: "event list \<Rightarrow> event list" where
  "order_events events = order_events_loop [] events"

subsection \<open>\<open>_filter_noop_events\<close>\<close>

text \<open>
  \<open>any(value for field in (event.add, event.remove) for value in field.values())\<close>:
  a value is a list, which Python takes as true when it is not empty.
\<close>

definition any_value :: "(string \<times> json list) list \<Rightarrow> (string \<times> json list) list \<Rightarrow> bool" where
  "any_value add remove = list_ex (\<lambda>v. v \<noteq> []) (concat (map (map snd) [add, remove]))"

fun filter_noop_events :: "event list \<Rightarrow> event list" where
  "filter_noop_events [] = []"
| "filter_noop_events (UpdateEvent f d # es) =
     (if d = [] then filter_noop_events es else UpdateEvent f d # filter_noop_events es)"
| "filter_noop_events (ListUpdateEvent f a r # es) =
     (if \<not> any_value a r then filter_noop_events es
      else ListUpdateEvent f a r # filter_noop_events es)"
| "filter_noop_events (DeleteFieldsEvent f d # es) =
     (if d = [] then filter_noop_events es else DeleteFieldsEvent f d # filter_noop_events es)"
| "filter_noop_events (e # es) = e # filter_noop_events es"

text \<open>
  The noop predicate in the words of the spec: an update with an empty data diff, a
  list_update whose \<open>add\<close> and \<open>remove\<close> carry no values for any field, a delete_fields
  with an empty field list; a create or a delete is never a noop.
\<close>

fun noop_spec :: "event \<Rightarrow> bool" where
  "noop_spec (CreateEvent f d) = False"
| "noop_spec (DeleteEvent f) = False"
| "noop_spec (UpdateEvent f d) = (d = [])"
| "noop_spec (DeleteFieldsEvent f d) = (d = [])"
| "noop_spec (ListUpdateEvent f a r) =
     ((\<forall>(k, vs) \<in> set a. vs = []) \<and> (\<forall>(k, vs) \<in> set r. vs = []))"

subsection \<open>\<open>will_exist\<close>\<close>

text \<open>
  The per-position state of a migration that \<open>will_exist\<close> reads. The keyframe accessor is
  outside the given sources; its \<open>model_not_deleted\<close> is taken as it answers.
\<close>

record position_state =
  new_accessor_model_not_deleted :: "string \<Rightarrow> bool"
  model_status :: model_status

definition will_exist :: "position_state \<Rightarrow> string \<Rightarrow> bool" where
  "will_exist self f =
     ((new_accessor_model_not_deleted self f \<and> model_status self f \<noteq> Some DELETE)
      \<or> model_status self f = Some CREATE)"

section \<open>Write pipeline: \<open>datastore/writer/postgresql_backend/sql_database_backend_service.py\<close>\<close>

definition COLLECTION_MAX_LEN :: nat where
  "COLLECTION_MAX_LEN = 32"

definition FQID_MAX_LEN :: nat where
  "FQID_MAX_LEN = 48"

definition COLLECTIONFIELD_MAX_LEN :: nat where
  "COLLECTIONFIELD_MAX_LEN = 239"

subsection \<open>The database\<close>

text \<open>
  \<open>EventData = Tuple[Position, Fqid, EVENT_TYPE, JSON, int]\<close>: position, fqid, type,
  serialised data, weight.
\<close>

type_synonym EventData = "int \<times> string \<times> EVENT_TYPE \<times> string \<times> int"

text \<open>
  Modelled from the spec: the schema is declared outside the given sources. The tables are
  those the SQL statements of the service name, with the columns these statements write:
  \<open>positions(position, migration_index, user_id, information)\<close> (the timestamp is left
  out), \<open>models(fqid, data, deleted)\<close> keyed by fqid,
  \<open>events(id, position, fqid, type, data, weight)\<close>,
  \<open>collectionfields(id, collectionfield, position)\<close>,
  \<open>events_to_collectionfields(event_id, collectionfield_id)\<close> and
  \<open>id_sequences(collection, id)\<close> keyed by collection. The three serial columns draw
  their values from the sequences that \<open>truncate_db\<close> restarts; a sequence field holds the
  value the next insert receives.
\<close>

record db =
  t_positions :: "(int \<times> int \<times> int \<times> string) list"
  seq_positions_position :: int
  t_models :: "string \<rightharpoonup> string \<times> json"
  t_events :: "(int \<times> EventData) list"
  seq_events_id :: int
  t_collectionfields :: "(int \<times> string \<times> int) list"
  seq_collectionfields_id :: int
  t_events_to_collectionfields :: "(int \<times> int) list"
  t_id_sequences :: "string \<rightharpoonup> int"

subsection \<open>Collaborators\<close>

text \<open>
  Modelled from the spec: \<open>BaseRequestEvent\<close> and \<open>BaseDbEvent\<close> are declared outside the
  given sources. Of a request event the service reads the fqid only; of a translated event
  it reads the fqid, the event type, the event data, the modified fields and whether it is
  a \<open>DbCreateEvent\<close>.
\<close>

record request_event =
  req_fqid :: string
  req_body :: json

record db_event =
  db_fqid :: string
  event_type :: EVENT_TYPE
  get_event_data :: json
  get_modified_fields :: "(string \<times> json) list"
  is_DbCreateEvent :: bool

type_synonym Model = "(string \<times> json) list"

type_synonym Models = "(string \<times> Model) list"

text \<open>
  The functions the service calls and the given sources do not hold: the event translator,
  the batched read of the read database, the projection \<open>apply_event_to_models\<close> of
  \<open>db_events\<close>, the key transforms, the serialisation of the connection and the two names
  of the meta fields. Each one that can raise returns an error or a value.
\<close>

record env =
  translate :: "request_event \<Rightarrow> Models \<Rightarrow> error + db_event list"
  get_many :: "db \<Rightarrow> string set \<Rightarrow> error + Models"
  db_events_apply_event_to_models :: "db_event \<Rightarrow> Models \<Rightarrow> error + Models"
  collection_and_id_from_fqid :: "string \<Rightarrow> error + string \<times> int"
  collectionfield_from_fqid_and_field :: "string \<Rightarrow> string \<Rightarrow> string"
  to_json :: "json \<Rightarrow> string"
  META_DELETED :: string
  META_POSITION :: string

subsection \<open>\<open>create_position\<close>\<close>

definition create_position :: "env \<Rightarrow> db \<Rightarrow> int \<Rightarrow> json \<Rightarrow> int \<Rightarrow> int \<times> db" where
  "create_position E d migration_index information user_id =
     (let position = seq_positions_position d
      in (position,
          d\<lparr>t_positions := t_positions d @ [(position, migration_index, user_id, to_json E information)],
            seq_positions_position := position + 1\<rparr>))"

subsection \<open>\<open>get_models_from_events\<close>\<close>

fun collect_fqids :: "string set \<Rightarrow> request_event list \<Rightarrow> error + string set" where
  "collect_fqids fqids [] = Inr fqids"
| "collect_fqids fqids (e # es) =
     (if length (req_fqid e) > FQID_MAX_LEN then Inl InvalidFormat
      else collect_fqids (insert (req_fqid e) fqids) es)"

definition get_models_from_events :: "env \<Rightarrow> db \<Rightarrow> request_event list \<Rightarrow> error + Models" where
  "get_models_from_events E d events =
     (case collect_fqids {} events of
        Inl err \<Rightarrow> Inl err
      | Inr fqids \<Rightarrow> get_many E d fqids)"

subsection \<open>\<open>apply_event_to_models\<close>\<close>

definition apply_event_to_models :: "env \<Rightarrow> db_event \<Rightarrow> Models \<Rightarrow> int \<Rightarrow> error + Models" where
  "apply_event_to_models E ev models position =
     (case db_events_apply_event_to_models E ev models of
        Inl err \<Rightarrow> Inl err
      | Inr models' \<Rightarrow>
          (case map_of models' (db_fqid ev) of
             None \<Rightarrow> Inl KeyError
           | Some model \<Rightarrow>
               Inr (AList.update (db_fqid ev)
                      (AList.update (META_POSITION E) (JInt position) model) models')))"

subsection \<open>The loop of \<open>insert_events\<close>\<close>

definition get_modified_collectionfields_from_event :: "env \<Rightarrow> db_event \<Rightarrow> string list" where
  "get_modified_collectionfields_from_event E ev =
     map (\<lambda>field. collectionfield_from_fqid_and_field E (db_fqid ev) field)
       (map fst (get_modified_fields ev))"

record loop_state =
  weight :: int
  events_data :: "EventData list"
  event_indices_per_modified_collectionfield :: "(string \<times> int list) list"
  max_id_per_collection :: "(string \<times> int) list"
  models :: Models
  modified_models :: "(string \<times> (string \<times> json) list) list"

text \<open>\<open>d[key].append(i)\<close> on a \<open>defaultdict(list)\<close>.\<close>

definition append_index :: "int \<Rightarrow> string \<Rightarrow> (string \<times> int list) list \<Rightarrow> (string \<times> int list) list" where
  "append_index i key d =
     AList.update key ((case map_of d key of None \<Rightarrow> [] | Some l \<Rightarrow> l) @ [i]) d"

text \<open>\<open>d[key].update(fields)\<close> on a \<open>defaultdict(dict)\<close>.\<close>

definition update_fields ::
  "string \<Rightarrow> (string \<times> json) list \<Rightarrow> (string \<times> (string \<times> json) list) list
   \<Rightarrow> (string \<times> (string \<times> json) list) list" where
  "update_fields key flds d =
     AList.update key
       (fold (\<lambda>(k, v). AList.update k v) flds (case map_of d key of None \<Rightarrow> [] | Some m \<Rightarrow> m)) d"

text \<open>The body of the inner loop, for one translated event.\<close>

definition process_db_event :: "env \<Rightarrow> int \<Rightarrow> loop_state \<Rightarrow> db_event \<Rightarrow> error + loop_state" where
  "process_db_event E position st ev =
     (let weight' = weight st + 1; fqid' = db_fqid ev
      in case collection_and_id_from_fqid E fqid' of
           Inl err \<Rightarrow> Inl err
         | Inr (collection, id') \<Rightarrow>
             (let events_data' = events_data st @
                    [(position, fqid', event_type ev, to_json E (get_event_data ev), weight')];
                  indices' = fold (append_index (weight' - 1))
                    (get_modified_collectionfields_from_event E ev)
                    (event_indices_per_modified_collectionfield st);
                  max_id' =
                    (if is_DbCreateEvent ev
                     then AList.update collection
                            (max (case map_of (max_id_per_collection st) collection of
                                    None \<Rightarrow> 0 | Some m \<Rightarrow> m) (id' + 1))
                            (max_id_per_collection st)
                     else max_id_per_collection st)
              in case apply_event_to_models E ev (models st) position of
                   Inl err \<Rightarrow> Inl err
                 | Inr models' \<Rightarrow>
                     Inr \<lparr>weight = weight',
                          events_data = events_data',
                          event_indices_per_modified_collectionfield = indices',
                          max_id_per_collection = max_id',
                          models = models',
                          modified_models =
                            update_fields fqid' (get_modified_fields ev) (modified_models st)\<rparr>))"

fun process_db_events :: "env \<Rightarrow> int \<Rightarrow> loop_state \<Rightarrow> db_event list \<Rightarrow> error + loop_state" where
  "process_db_events E position st [] = Inr st"
| "process_db_events E position st (ev # evs) =
     (case process_db_event E position st ev of
        Inl err \<Rightarrow> Inl err
      | Inr st' \<Rightarrow> process_db_events E position st' evs)"

text \<open>The outer loop: each request event is translated against the models as they stand.\<close>

fun process_events :: "env \<Rightarrow> int \<Rightarrow> loop_state \<Rightarrow> request_event list \<Rightarrow> error + loop_state" where
  "process_events E position st [] = Inr st"
| "process_events E position st (event # events) =
     (case translate E event (models st) of
        Inl err \<Rightarrow> Inl err
      | Inr db_events \<Rightarrow>
          (case process_db_events E position st db_events of
             Inl err \<Rightarrow> Inl err
           | Inr st' \<Rightarrow> process_events E position st' events))"

subsection \<open>The writes after the loop\<close>

text \<open>
  \<open>update_id_sequences\<close>: an upsert per collection that keeps the greater of the stored and
  the given id.
\<close>

definition update_id_sequences :: "db \<Rightarrow> (string \<times> int) list \<Rightarrow> db" where
  "update_id_sequences d max_ids =
     d\<lparr>t_id_sequences :=
         fold (\<lambda>(collection, id') t.
                 t(collection \<mapsto> (case t collection of None \<Rightarrow> id' | Some old \<Rightarrow> max old id')))
           max_ids (t_id_sequences d)\<rparr>"

text \<open>
  \<open>write_model_updates\<close>: the rows are built first, and \<open>model[META_DELETED]\<close> raises
  \<open>KeyError\<close> for a model without that field; then every row replaces data and deleted
  flag of its fqid.
\<close>

fun model_rows :: "env \<Rightarrow> Models \<Rightarrow> error + (string \<times> string \<times> json) list" where
  "model_rows E [] = Inr []"
| "model_rows E ((fqid', model) # ms) =
     (case map_of model (META_DELETED E) of
        None \<Rightarrow> Inl KeyError
      | Some deleted \<Rightarrow>
          (case model_rows E ms of
             Inl err \<Rightarrow> Inl err
           | Inr rows \<Rightarrow> Inr ((fqid', to_json E (JObj model), deleted) # rows)))"

definition write_model_updates :: "env \<Rightarrow> db \<Rightarrow> Models \<Rightarrow> error + db" where
  "write_model_updates E d ms =
     (case model_rows E ms of
        Inl err \<Rightarrow> Inl err
      | Inr rows \<Rightarrow>
          Inr (d\<lparr>t_models :=
                   fold (\<lambda>(fqid', data, deleted) t. t(fqid' \<mapsto> (data, deleted))) rows (t_models d)\<rparr>))"

text \<open>\<open>write_events\<close>: the rows are inserted in the order given; the new ids are returned.\<close>

definition write_events :: "db \<Rightarrow> EventData list \<Rightarrow> int list \<times> db" where
  "write_events d rows =
     (let ids = map (\<lambda>i. seq_events_id d + int i) [0 ..< length rows]
      in (ids, d\<lparr>t_events := t_events d @ zip ids rows,
                 seq_events_id := seq_events_id d + int (length rows)\<rparr>))"

text \<open>
  \<open>insert_modified_collectionfields_into_db\<close>: the length check runs over all keys before
  the statement; the upsert sets the position of an existing collectionfield and returns
  its id, and inserts a new row otherwise. Every argument draws a value of the sequence.
\<close>

fun collectionfield_arguments :: "string list \<Rightarrow> int \<Rightarrow> error + (string \<times> int) list" where
  "collectionfield_arguments [] position = Inr []"
| "collectionfield_arguments (cf # cfs) position =
     (if length cf > COLLECTIONFIELD_MAX_LEN then Inl InvalidFormat
      else (case collectionfield_arguments cfs position of
              Inl err \<Rightarrow> Inl err
            | Inr args \<Rightarrow> Inr ((cf, position) # args)))"

definition upsert_collectionfield :: "string \<times> int \<Rightarrow> int list \<times> db \<Rightarrow> int list \<times> db" where
  "upsert_collectionfield arg acc =
     (case (arg, acc) of ((cf, position), (ids, d)) \<Rightarrow>
        (case find (\<lambda>(i, c, p). c = cf) (t_collectionfields d) of
           Some (i, c, p) \<Rightarrow>
             (ids @ [i],
              d\<lparr>t_collectionfields :=
                  map (\<lambda>(i', c', p'). if c' = cf then (i', c', position) else (i', c', p'))
                    (t_collectionfields d),
                seq_collectionfields_id := seq_collectionfields_id d + 1\<rparr>)
         | None \<Rightarrow>
             (ids @ [seq_collectionfields_id d],
              d\<lparr>t_collectionfields :=
                  t_collectionfields d @ [(seq_collectionfields_id d, cf, position)],
                seq_collectionfields_id := seq_collectionfields_id d + 1\<rparr>)))"

definition insert_modified_collectionfields_into_db ::
  "db \<Rightarrow> string list \<Rightarrow> int \<Rightarrow> error + int list \<times> db" where
  "insert_modified_collectionfields_into_db d modified_collectionfields position =
     (case collectionfield_arguments modified_collectionfields position of
        Inl err \<Rightarrow> Inl err
      | Inr args \<Rightarrow> Inr (fold upsert_collectionfield args ([], d)))"

text \<open>
  \<open>event_ids[event_index]\<close>: an index below zero is taken from the end of the list, one
  outside the list raises \<open>IndexError\<close>.
\<close>

definition py_index :: "'a list \<Rightarrow> int \<Rightarrow> error + 'a" where
  "py_index xs i =
     (if 0 \<le> i \<and> i < int (length xs) then Inr (xs ! nat i)
      else if i < 0 \<and> - int (length xs) \<le> i then Inr (xs ! nat (int (length xs) + i))
      else Inl IndexError)"

fun link_rows :: "int list \<Rightarrow> int \<Rightarrow> int list \<Rightarrow> error + (int \<times> int) list" where
  "link_rows event_ids collectionfield_id [] = Inr []"
| "link_rows event_ids collectionfield_id (event_index # rest) =
     (case py_index event_ids event_index of
        Inl err \<Rightarrow> Inl err
      | Inr event_id \<Rightarrow>
          (case link_rows event_ids collectionfield_id rest of
             Inl err \<Rightarrow> Inl err
           | Inr rows \<Rightarrow> Inr ((event_id, collectionfield_id) # rows)))"

fun link_arguments :: "int list \<Rightarrow> (int \<times> int list) list \<Rightarrow> error + (int \<times> int) list" where
  "link_arguments event_ids [] = Inr []"
| "link_arguments event_ids ((collectionfield_id, event_indices) # rest) =
     (case link_rows event_ids collectionfield_id event_indices of
        Inl err \<Rightarrow> Inl err
      | Inr rows \<Rightarrow>
          (case link_arguments event_ids rest of
             Inl err \<Rightarrow> Inl err
           | Inr rows' \<Rightarrow> Inr (rows @ rows')))"

definition connect_events_and_collection_fields ::
  "db \<Rightarrow> int list \<Rightarrow> int list \<Rightarrow> int list list \<Rightarrow> error + db" where
  "connect_events_and_collection_fields d event_ids collectionfield_ids event_indices_order =
     (case link_arguments event_ids (zip collectionfield_ids event_indices_order) of
        Inl err \<Rightarrow> Inl err
      | Inr args \<Rightarrow>
          Inr (d\<lparr>t_events_to_collectionfields := t_events_to_collectionfields d @ args\<rparr>))"

subsection \<open>\<open>insert_events\<close>\<close>

text \<open>
  The result pairs what the call returns or raises with the database as the call leaves
  it: a statement that ran before an exception stays in the open transaction.
\<close>

definition insert_events ::
  "env \<Rightarrow> db \<Rightarrow> request_event list \<Rightarrow> int \<Rightarrow> json \<Rightarrow> int
   \<Rightarrow> (error + int \<times> (string \<times> (string \<times> json) list) list) \<times> db" where
  "insert_events E d events migration_index information user_id =
     (if events = [] then (Inl BadCodingError, d)
      else
        (case create_position E d migration_index information user_id of (position, d1) \<Rightarrow>
           (case get_models_from_events E d1 events of
              Inl err \<Rightarrow> (Inl err, d1)
            | Inr models0 \<Rightarrow>
                (case process_events E position
                        \<lparr>weight = 0, events_data = [],
                         event_indices_per_modified_collectionfield = [],
                         max_id_per_collection = [], models = models0,
                         modified_models = []\<rparr> events of
                   Inl err \<Rightarrow> (Inl err, d1)
                 | Inr st \<Rightarrow>
                     (let d2 = update_id_sequences d1 (max_id_per_collection st)
                      in case write_model_updates E d2 (models st) of
                           Inl err \<Rightarrow> (Inl err, d2)
                         | Inr d3 \<Rightarrow>
                             (case write_events d3 (events_data st) of (event_ids, d4) \<Rightarrow>
                                (case insert_modified_collectionfields_into_db d4
                                        (map fst (event_indices_per_modified_collectionfield st))
                                        position of
                                   Inl err \<Rightarrow> (Inl err, d4)
                                 | Inr (collectionfield_ids, d5) \<Rightarrow>
                                     (case connect_events_and_collection_fields d5 event_ids
                                             collectionfield_ids
                                             (map snd (event_indices_per_modified_collectionfield st)) of
                                        Inl err \<Rightarrow> (Inl err, d5)
                                      | Inr d6 \<Rightarrow> (Inr (position, modified_models st), d6)))))))))"

text \<open>
  The translated events of a call in the order of translation: those of the first request
  event, then those of the next against the models the first ones left, and so on.
\<close>

fun translated_events :: "env \<Rightarrow> int \<Rightarrow> loop_state \<Rightarrow> request_event list \<Rightarrow> db_event list" where
  "translated_events E position st [] = []"
| "translated_events E position st (event # events) =
     (case translate E event (models st) of
        Inl err \<Rightarrow> []
      | Inr db_events \<Rightarrow>
          (case process_db_events E position st db_events of
             Inl err \<Rightarrow> db_events
           | Inr st' \<Rightarrow> db_events @ translated_events E position st' events))"

subsection \<open>\<open>reserve_next_ids\<close>\<close>

text \<open>
  The statement inserts \<open>(collection, amount + 1)\<close>; on a conflict it sets the id to the
  stored id plus the given id minus one; it returns the id of the row either way.
\<close>

definition reserve_upsert :: "db \<Rightarrow> string \<Rightarrow> int \<Rightarrow> int \<times> db" where
  "reserve_upsert d collection excluded_id =
     (let new_id = (case t_id_sequences d collection of
                      None \<Rightarrow> excluded_id
                    | Some id' \<Rightarrow> id' + excluded_id - 1)
      in (new_id, d\<lparr>t_id_sequences := (t_id_sequences d)(collection \<mapsto> new_id)\<rparr>))"

definition reserve_next_ids :: "db \<Rightarrow> string \<Rightarrow> int \<Rightarrow> (error + int list) \<times> db" where
  "reserve_next_ids d collection amount =
     (if amount \<le> 0 then (Inl InvalidFormat, d)
      else if length collection > COLLECTION_MAX_LEN \<or> collection = [] then (Inl InvalidFormat, d)
      else (case reserve_upsert d collection (amount + 1) of (new_max_id, d') \<Rightarrow>
              (Inr [new_max_id - amount .. new_max_id - 1], d')))"

subsection \<open>Reading the result of \<open>insert_events\<close>\<close>

text \<open>
  The event data the loop builds for a list of translated events when the counter stands
  at \<open>w\<close>: the next event receives \<open>w + 1\<close>.
\<close>

fun event_rows :: "env \<Rightarrow> int \<Rightarrow> int \<Rightarrow> db_event list \<Rightarrow> EventData list" where
  "event_rows E position w [] = []"
| "event_rows E position w (ev # evs) =
     (position, db_fqid ev, event_type ev, to_json E (get_event_data ev), w + 1)
       # event_rows E position (w + 1) evs"

text \<open>All translated events of a call of \<open>insert_events\<close>, in the order of translation.\<close>

definition insert_events_translated ::
  "env \<Rightarrow> db \<Rightarrow> request_event list \<Rightarrow> int \<Rightarrow> json \<Rightarrow> int \<Rightarrow> db_event list" where
  "insert_events_translated E d events migration_index information user_id =
     (case create_position E d migration_index information user_id of (position, d1) \<Rightarrow>
        (case get_models_from_events E d1 events of
           Inl err \<Rightarrow> []
         | Inr models0 \<Rightarrow>
             translated_events E position
               \<lparr>weight = 0, events_data = [],
                event_indices_per_modified_collectionfield = [],
                max_id_per_collection = [], models = models0,
                modified_models = []\<rparr> events))"

definition row_weight :: "int \<times> EventData \<Rightarrow> int" where
  "row_weight r = (case r of (i, p, f, t, dat, w) \<Rightarrow> w)"

definition row_position :: "int \<times> EventData \<Rightarrow> int" where
  "row_position r = (case r of (i, p, f, t, dat, w) \<Rightarrow> p)"

text \<open>The event rows a call has added: those behind the rows that were there before.\<close>

definition new_event_rows :: "db \<Rightarrow> db \<Rightarrow> (int \<times> EventData) list" where
  "new_event_rows d d' = drop (length (t_events d)) (t_events d')"

text \<open>
  The serial column gives every position a number below the counter of its sequence. A
  database is in that state when all stored event rows and all stored positions carry a
  position below the value the next insert receives.
\<close>

definition db_positions_fresh :: "db \<Rightarrow> bool" where
  "db_positions_fresh d =
     (list_all (\<lambda>r. row_position r < seq_positions_position d) (t_events d)
      \<and> list_all (\<lambda>r. fst r < seq_positions_position d) (t_positions d))"

text \<open>The weights of the stored event rows of a position, in the order of the rows.\<close>

definition position_weights :: "db \<Rightarrow> int \<Rightarrow> int list" where
  "position_weights d p = map row_weight (filter (\<lambda>r. row_position r = p) (t_events d))"

text \<open>Within every position that has event rows the weights are \<open>1, 2, 3, ...\<close>.\<close>

definition weights_wellformed :: "db \<Rightarrow> bool" where
  "weights_wellformed d =
     list_all (\<lambda>p. position_weights d p = [1 .. int (length (position_weights d p))])
       (map row_position (t_events d))"

subsection \<open>A database and collaborators to run the pipeline on\<close>

definition example_db :: db where
  "example_db =
     \<lparr>t_positions = [], seq_positions_position = 1, t_models = Map.empty, t_events = [],
      seq_events_id = 1, t_collectionfields = [], seq_collectionfields_id = 1,
      t_events_to_collectionfields = [], t_id_sequences = [''motion'' \<mapsto> 10]\<rparr>"

text \<open>
  A translator that turns a request on an unknown model into a create and an update, and a
  request on a known model into one update of \<open>title\<close>.
\<close>

definition example_translate :: "request_event \<Rightarrow> Models \<Rightarrow> error + db_event list" where
  "example_translate e ms =
     (case map_of ms (req_fqid e) of
        None \<Rightarrow>
          Inr [\<lparr>db_fqid = req_fqid e, event_type = CREATE, get_event_data = req_body e,
                get_modified_fields = [(''title'', req_body e)], is_DbCreateEvent = True\<rparr>,
               \<lparr>db_fqid = req_fqid e, event_type = UPDATE, get_event_data = JNull,
                get_modified_fields = [(''text'', JNull)], is_DbCreateEvent = False\<rparr>]
      | Some m \<Rightarrow>
          Inr [\<lparr>db_fqid = req_fqid e, event_type = UPDATE, get_event_data = req_body e,
                get_modified_fields = [(''title'', req_body e)], is_DbCreateEvent = False\<rparr>])"

definition example_apply :: "db_event \<Rightarrow> Models \<Rightarrow> error + Models" where
  "example_apply ev ms =
     Inr (AList.update (db_fqid ev)
            (fold (\<lambda>(k, v). AList.update k v) (get_modified_fields ev)
               (case map_of ms (db_fqid ev) of
                  None \<Rightarrow> [(''meta_deleted'', JBool False)]
                | Some m \<Rightarrow> m)) ms)"

definition example_env :: env where
  "example_env =
     \<lparr>translate = example_translate,
      get_many = (\<lambda>d fqids. Inr []),
      db_events_apply_event_to_models = example_apply,
      collection_and_id_from_fqid = (\<lambda>f. Inr (takeWhile (\<lambda>c. c \<noteq> CHR ''/'') f, 1)),
      collectionfield_from_fqid_and_field =
        (\<lambda>f field. takeWhile (\<lambda>c. c \<noteq> CHR ''/'') f @ ''/'' @ field),
      to_json = (\<lambda>j. case j of JStr s \<Rightarrow> s | _ \<Rightarrow> ''null''),
      META_DELETED = ''meta_deleted'',
      META_POSITION = ''meta_position''\<rparr>"

definition example_requests :: "request_event list" where
  "example_requests =
     [\<lparr>req_fqid = ''motion/1'', req_body = JStr ''a''\<rparr>,
      \<lparr>req_fqid = ''motion/1'', req_body = JStr ''b''\<rparr>]"

text \<open>The database after one call on the example requests, and after a second call.\<close>

definition example_db1 :: db where
  "example_db1 = snd (insert_events example_env example_db example_requests 1 JNull 7)"

definition example_db2 :: db where
  "example_db2 = snd (insert_events example_env example_db1 example_requests 1 JNull 8)"

definition long_fqid_requests :: "request_event list" where
  "long_fqid_requests =
     [\<lparr>req_fqid = ''motion/1'', req_body = JStr ''a''\<rparr>,
      \<lparr>req_fqid = replicate 49 CHR ''m'', req_body = JStr ''b''\<rparr>]"

section \<open>In-memory migration reader: \<open>datastore/migrations/core/migration_reader.py\<close>\<close>

subsection \<open>The builtins \<open>min\<close> and \<open>max\<close> on JSON values\<close>

text \<open>Strings compare by the codes of their characters, a proper prefix being smaller.\<close>

fun str_lt :: "string \<Rightarrow> string \<Rightarrow> bool" where
  "str_lt [] [] = False"
| "str_lt [] (y # ys) = True"
| "str_lt (x # xs) [] = False"
| "str_lt (x # xs) (y # ys) =
     (if (of_char x :: nat) < of_char y then True
      else if (of_char y :: nat) < of_char x then False
      else str_lt xs ys)"

text \<open>A boolean is an integer in Python: \<open>True\<close> is 1 and \<open>False\<close> is 0.\<close>

fun as_num :: "json \<Rightarrow> int option" where
  "as_num (JBool b) = Some (if b then 1 else 0)"
| "as_num (JInt i) = Some i"
| "as_num v = None"

text \<open>
  \<open>a == b\<close>: numbers by value, strings and \<open>None\<close> by identity of the value, lists item by
  item, dicts by equal size and equal values under every key; values of different kinds
  are unequal.
\<close>

fun py_eq :: "json \<Rightarrow> json \<Rightarrow> bool"
  and py_eq_list :: "json list \<Rightarrow> json list \<Rightarrow> bool"
  and py_eq_items :: "(string \<times> json) list \<Rightarrow> (string \<times> json) list \<Rightarrow> bool"
  and py_eq_lookup :: "string \<Rightarrow> json \<Rightarrow> (string \<times> json) list \<Rightarrow> bool" where
  "py_eq JNull b = (b = JNull)"
| "py_eq (JBool x) b = (as_num b = Some (if x then 1 else 0))"
| "py_eq (JInt i) b = (as_num b = Some i)"
| "py_eq (JStr s) b = (b = JStr s)"
| "py_eq (JList xs) (JList ys) = py_eq_list xs ys"
| "py_eq (JList xs) b = False"
| "py_eq (JObj xs) (JObj ys) = (length xs = length ys \<and> py_eq_items xs ys)"
| "py_eq (JObj xs) b = False"
| "py_eq_list [] ys = (ys = [])"
| "py_eq_list (x # xs) [] = False"
| "py_eq_list (x # xs) (y # ys) = (py_eq x y \<and> py_eq_list xs ys)"
| "py_eq_items [] ys = True"
| "py_eq_items ((k, v) # xs) ys = (py_eq_lookup k v ys \<and> py_eq_items xs ys)"
| "py_eq_lookup k v [] = False"
| "py_eq_lookup k v ((k', w) # ys) = (if k = k' then py_eq v w else py_eq_lookup k v ys)"

text \<open>
  \<open>a < b\<close>: defined between numbers, between strings and between lists; a list comparison
  looks for the first pair of unequal items and compares that pair, or the lengths when
  there is none. Every other pair of operands raises \<open>TypeError\<close>.
\<close>

fun py_lt :: "json \<Rightarrow> json \<Rightarrow> error + bool"
  and py_lt_list :: "json list \<Rightarrow> json list \<Rightarrow> error + bool" where
  "py_lt (JBool x) b =
     (case as_num b of Some j \<Rightarrow> Inr ((if x then 1 else 0) < j) | None \<Rightarrow> Inl TypeError)"
| "py_lt (JInt i) b = (case as_num b of Some j \<Rightarrow> Inr (i < j) | None \<Rightarrow> Inl TypeError)"
| "py_lt (JStr s) (JStr t) = Inr (str_lt s t)"
| "py_lt (JList xs) (JList ys) = py_lt_list xs ys"
| "py_lt a b = Inl TypeError"
| "py_lt_list [] [] = Inr False"
| "py_lt_list [] (y # ys) = Inr True"
| "py_lt_list (x # xs) [] = Inr False"
| "py_lt_list (x # xs) (y # ys) = (if py_eq x y then py_lt_list xs ys else py_lt x y)"

text \<open>
  \<open>min\<close> keeps the first item and replaces it by each later item that is smaller; \<open>max\<close>
  replaces it by each later item that is greater (\<open>item > cur\<close>, which on these values is
  \<open>cur < item\<close>). On an empty list both raise \<open>ValueError\<close>.
\<close>

fun py_min_loop :: "json \<Rightarrow> json list \<Rightarrow> error + json" where
  "py_min_loop cur [] = Inr cur"
| "py_min_loop cur (item # rest) =
     (case py_lt item cur of
        Inl err \<Rightarrow> Inl err
      | Inr True \<Rightarrow> py_min_loop item rest
      | Inr False \<Rightarrow> py_min_loop cur rest)"

fun py_max_loop :: "json \<Rightarrow> json list \<Rightarrow> error + json" where
  "py_max_loop cur [] = Inr cur"
| "py_max_loop cur (item # rest) =
     (case py_lt cur item of
        Inl err \<Rightarrow> Inl err
      | Inr True \<Rightarrow> py_max_loop item rest
      | Inr False \<Rightarrow> py_max_loop cur rest)"

definition py_min :: "json list \<Rightarrow> error + json" where
  "py_min vs = (case vs of [] \<Rightarrow> Inl ValueError | v # rest \<Rightarrow> py_min_loop v rest)"

definition py_max :: "json list \<Rightarrow> error + json" where
  "py_max vs = (case vs of [] \<Rightarrow> Inl ValueError | v # rest \<Rightarrow> py_max_loop v rest)"

subsection \<open>\<open>MigrationReaderImplementationMemory\<close>\<close>

text \<open>
  The reader holds the table \<open>models\<close>. \<open>filter_models\<close> of the postgresql backend is
  outside the given sources and is a field of the model; \<open>'f\<close> is the type of filters.
\<close>

record 'f memory_reader =
  reader_models :: Models
  filter_models :: "Models \<Rightarrow> string \<Rightarrow> 'f \<Rightarrow> (int \<times> Model) list"

text \<open>The dict with the given items: a key that comes again replaces the value.\<close>

definition dict_of_items :: "('k \<times> 'v) list \<Rightarrow> ('k \<times> 'v) list" where
  "dict_of_items xs = fold (\<lambda>(k, v). AList.update k v) xs []"

definition reader_filter :: "'f memory_reader \<Rightarrow> string \<Rightarrow> 'f \<Rightarrow> (int \<times> Model) list" where
  "reader_filter self collection flt =
     dict_of_items (filter_models self (reader_models self) collection flt)"

definition reader_count :: "'f memory_reader \<Rightarrow> string \<Rightarrow> 'f \<Rightarrow> int" where
  "reader_count self collection flt = int (length (reader_filter self collection flt))"

definition reader_exists :: "'f memory_reader \<Rightarrow> string \<Rightarrow> 'f \<Rightarrow> bool" where
  "reader_exists self collection flt = (reader_count self collection flt > 0)"

text \<open>
  \<open>minmax\<close> returns a JSON value, \<open>JNull\<close> standing for Python's \<open>None\<close>, or the error that
  \<open>func\<close> raises.
\<close>

definition minmax ::
  "'f memory_reader \<Rightarrow> string \<Rightarrow> 'f \<Rightarrow> string \<Rightarrow> (json list \<Rightarrow> error + json) \<Rightarrow> error + json" where
  "minmax self collection flt field func =
     (let vals = List.map_filter (\<lambda>model. map_of model field)
                   (map snd (reader_filter self collection flt))
      in if vals \<noteq> [] then func vals else Inr JNull)"

definition reader_min :: "'f memory_reader \<Rightarrow> string \<Rightarrow> 'f \<Rightarrow> string \<Rightarrow> error + json" where
  "reader_min self collection flt field = minmax self collection flt field py_min"

definition reader_max :: "'f memory_reader \<Rightarrow> string \<Rightarrow> 'f \<Rightarrow> string \<Rightarrow> error + json" where
  "reader_max self collection flt field = minmax self collection flt field py_max"

text \<open>The models that \<open>filter\<close> returns, and whether one of them contains a field.\<close>

definition filtered_models :: "'f memory_reader \<Rightarrow> string \<Rightarrow> 'f \<Rightarrow> Model list" where
  "filtered_models self collection flt = map snd (reader_filter self collection flt)"

definition contains_field :: "Model \<Rightarrow> string \<Rightarrow> bool" where
  "contains_field model field = (map_of model field \<noteq> None)"

subsection \<open>Readers to run the queries on\<close>

definition models_of_collection :: "Models \<Rightarrow> string \<Rightarrow> unit \<Rightarrow> (int \<times> Model) list" where
  "models_of_collection ms collection flt =
     map (\<lambda>(f, m). (case map_of m ''id'' of Some (JInt i) \<Rightarrow> i | _ \<Rightarrow> 0, m))
       (filter (\<lambda>(f, m). takeWhile (\<lambda>c. c \<noteq> CHR ''/'') f = collection) ms)"

definition null_reader :: "unit memory_reader" where
  "null_reader =
     \<lparr>reader_models = [(''motion/1'', [(''id'', JInt 1), (''number'', JNull)])],
      filter_models = models_of_collection\<rparr>"

definition int_reader :: "unit memory_reader" where
  "int_reader =
     \<lparr>reader_models = [(''motion/1'', [(''id'', JInt 1), (''number'', JInt 7)]),
                       (''motion/2'', [(''id'', JInt 2)]),
                       (''motion/3'', [(''id'', JInt 3), (''number'', JInt 4)])],
      filter_models = models_of_collection\<rparr>"

section \<open>Migration results\<close>

subsection \<open>The noop filter\<close>

lemma any_value_iff:
  "any_value a r = (\<not> ((\<forall>(k, vs) \<in> set a. vs = []) \<and> (\<forall>(k, vs) \<in> set r. vs = [])))"
  by (simp add: any_value_def list_ex_iff split_def bex_Un)

lemma filter_noop_events_filter: "filter_noop_events es = filter (\<lambda>e. \<not> noop_spec e) es"
proof (induction es rule: filter_noop_events.induct)
  case (3 f a r es)
  have "noop_spec (ListUpdateEvent f a r) = (\<not> any_value a r)"
    by (simp add: any_value_iff)
  with 3 show ?case by (simp del: noop_spec.simps)
qed simp_all

text \<open>
  Claim C5. The noop filter keeps exactly the events that are not noops in the sense of the
  spec, in their original order: it drops an update with an empty diff, a list_update whose
  add and remove carry no values, and a delete_fields with an empty field list; it never
  drops a create or a delete.
\<close>

theorem C5_filter_noop_events:
  "filter_noop_events es = filter (\<lambda>e. \<not> noop_spec e) es
   \<and> (\<forall>e \<in> set es. (type e = CREATE \<or> type e = DELETE) \<longrightarrow> e \<in> set (filter_noop_events es))
   \<and> filter_noop_events (xs @ [UpdateEvent f []] @ ys) = filter_noop_events (xs @ ys)
   \<and> filter_noop_events (xs @ [ListUpdateEvent f [] []] @ ys) = filter_noop_events (xs @ ys)
   \<and> filter_noop_events (xs @ [DeleteFieldsEvent f []] @ ys) = filter_noop_events (xs @ ys)"
proof -
  have keep: "\<forall>e \<in> set es. (type e = CREATE \<or> type e = DELETE) \<longrightarrow> e \<in> set (filter_noop_events es)"
  proof (intro ballI impI)
    fix e assume e: "e \<in> set es" and t: "type e = CREATE \<or> type e = DELETE"
    from t have "\<not> noop_spec e" by (cases e) simp_all
    with e show "e \<in> set (filter_noop_events es)"
      unfolding filter_noop_events_filter by simp
  qed
  have u: "filter_noop_events (xs @ [UpdateEvent f []] @ ys) = filter_noop_events (xs @ ys)"
    unfolding filter_noop_events_filter by simp
  have l: "filter_noop_events (xs @ [ListUpdateEvent f [] []] @ ys) = filter_noop_events (xs @ ys)"
    unfolding filter_noop_events_filter by simp
  have d: "filter_noop_events (xs @ [DeleteFieldsEvent f []] @ ys) = filter_noop_events (xs @ ys)"
    unfolding filter_noop_events_filter by simp
  from filter_noop_events_filter [of es] keep u l d show ?thesis
    by (intro conjI)
qed

theorem C5_filter_noop_events_witness:
  "filter_noop_events
     [UpdateEvent ''a/1'' [], CreateEvent ''a/2'' [], ListUpdateEvent ''a/3'' [(''f'', [])] [],
      DeleteFieldsEvent ''a/4'' [], DeleteEvent ''a/5'', UpdateEvent ''a/6'' [(''f'', JInt 1)],
      ListUpdateEvent ''a/7'' [] [(''g'', [JInt 2])], DeleteFieldsEvent ''a/8'' [''h'']]
   = [CreateEvent ''a/2'' [], DeleteEvent ''a/5'', UpdateEvent ''a/6'' [(''f'', JInt 1)],
      ListUpdateEvent ''a/7'' [] [(''g'', [JInt 2])], DeleteFieldsEvent ''a/8'' [''h'']]"
  using C5_filter_noop_events
    [of "[UpdateEvent ''a/1'' [], CreateEvent ''a/2'' [], ListUpdateEvent ''a/3'' [(''f'', [])] [],
      DeleteFieldsEvent ''a/4'' [], DeleteEvent ''a/5'', UpdateEvent ''a/6'' [(''f'', JInt 1)],
      ListUpdateEvent ''a/7'' [] [(''g'', [JInt 2])], DeleteFieldsEvent ''a/8'' [''h'']]"]
  by simp

subsection \<open>The order of events\<close>

lemma order_events_loop_eq:
  "order_events_loop q es
   = filter (\<lambda>e. type e = CREATE) es @ q @ filter (\<lambda>e. type e \<noteq> CREATE) es"
  by (induction es arbitrary: q) simp_all

text \<open>
  Claim C6. \<open>order_events\<close> yields the create events in their original order, then all
  other events in their original order; the result is a permutation of the input; on
  \<open>[update(B), create(A), delete_fields(C), create(D)]\<close> it yields
  \<open>[create(A), create(D), update(B), delete_fields(C)]\<close>.
\<close>

theorem C6_order_events:
  "order_events es
     = filter (\<lambda>e. type e = CREATE) es @ filter (\<lambda>e. type e \<noteq> CREATE) es
   \<and> mset (order_events es) = mset es
   \<and> order_events [UpdateEvent B ub, CreateEvent A ca, DeleteFieldsEvent C dc, CreateEvent D cd]
     = [CreateEvent A ca, CreateEvent D cd, UpdateEvent B ub, DeleteFieldsEvent C dc]"
proof -
  have eq: "\<And>xs. order_events xs
      = filter (\<lambda>e. type e = CREATE) xs @ filter (\<lambda>e. type e \<noteq> CREATE) xs"
    by (simp add: order_events_def order_events_loop_eq)
  have perm: "mset (order_events es) = mset es"
    unfolding eq by simp
  show ?thesis
    using perm by (simp add: eq)
qed

subsection \<open>The model status\<close>

lemma set_model_status_loop_append:
  "set_model_status_loop ms (es @ es') = set_model_status_loop (set_model_status_loop ms es) es'"
  by (induction es arbitrary: ms) simp_all

lemma set_model_status_step_other:
  "type e \<noteq> CREATE \<Longrightarrow> type e \<noteq> DELETE \<Longrightarrow> set_model_status_step ms e = ms"
  by (simp add: set_model_status_step_def)

lemma set_model_status_step_sticky:
  "ms f = Some DELETE \<Longrightarrow> set_model_status_step ms e f = Some DELETE"
  by (auto simp: set_model_status_step_def)

lemma set_model_status_loop_sticky:
  "ms f = Some DELETE \<Longrightarrow> set_model_status_loop ms es f = Some DELETE"
  by (induction es arbitrary: ms) (simp_all add: set_model_status_step_sticky)

lemma set_model_status_loop_filter:
  "set_model_status_loop ms (filter (\<lambda>e. type e = CREATE \<or> type e = DELETE) es)
   = set_model_status_loop ms es"
  by (induction es arbitrary: ms) (simp_all add: set_model_status_step_other)

lemma set_model_status_loop_char:
  "set_model_status_loop ms es f =
     (if ms f = Some DELETE \<or> (\<exists>e \<in> set es. type e = DELETE \<and> fqid e = f) then Some DELETE
      else if \<exists>e \<in> set es. type e = CREATE \<and> fqid e = f then Some CREATE
      else ms f)"
proof (induction es arbitrary: ms)
  case Nil
  then show ?case by auto
next
  case (Cons e es)
  show ?case
    unfolding set_model_status_loop.simps Cons.IH
    by (cases "type e") (auto simp: set_model_status_step_def)
qed

text \<open>
  Claim C7. The scan handles the events in their original order: each event is one step
  that records the type of a create or delete event under its fqid unless a delete is
  already recorded there. So a recorded delete stays whatever follows, events of other
  types change nothing, and in the end an fqid has status delete when the position deletes
  it, create when the position only creates it, and none otherwise.
\<close>

theorem C7_set_model_status:
  "set_model_status [] = Map.empty
   \<and> set_model_status (es @ [e])
     = (if (type e = CREATE \<or> type e = DELETE) \<and> set_model_status es (fqid e) \<noteq> Some DELETE
        then (set_model_status es)(fqid e \<mapsto> type e) else set_model_status es)
   \<and> (set_model_status es f = Some DELETE \<longrightarrow> set_model_status (es @ es') f = Some DELETE)
   \<and> set_model_status (filter (\<lambda>e. type e = CREATE \<or> type e = DELETE) es) = set_model_status es
   \<and> set_model_status es f =
       (if \<exists>e \<in> set es. type e = DELETE \<and> fqid e = f then Some DELETE
        else if \<exists>e \<in> set es. type e = CREATE \<and> fqid e = f then Some CREATE
        else None)"
proof -
  have snoc: "set_model_status (es @ [e]) = set_model_status_step (set_model_status es) e"
    by (simp add: set_model_status_def set_model_status_loop_append)
  have sticky: "set_model_status es f = Some DELETE \<longrightarrow> set_model_status (es @ es') f = Some DELETE"
    by (simp add: set_model_status_def set_model_status_loop_append set_model_status_loop_sticky)
  have other: "set_model_status (filter (\<lambda>e. type e = CREATE \<or> type e = DELETE) es)
      = set_model_status es"
    by (simp add: set_model_status_def set_model_status_loop_filter)
  have char: "set_model_status es f =
       (if \<exists>e \<in> set es. type e = DELETE \<and> fqid e = f then Some DELETE
        else if \<exists>e \<in> set es. type e = CREATE \<and> fqid e = f then Some CREATE
        else None)"
    unfolding set_model_status_def set_model_status_loop_char by simp
  have nil: "set_model_status [] = Map.empty"
    by (simp add: set_model_status_def)
  from nil snoc sticky other char show ?thesis
    unfolding set_model_status_step_def by (intro conjI)
qed

theorem C7_set_model_status_witness:
  "set_model_status [DeleteEvent ''a/1''] ''a/1'' = Some DELETE
   \<and> set_model_status ([DeleteEvent ''a/1''] @ [CreateEvent ''a/1'' [], UpdateEvent ''a/2'' []]) ''a/1''
     = Some DELETE
   \<and> set_model_status ([DeleteEvent ''a/1''] @ [CreateEvent ''a/1'' [], UpdateEvent ''a/2'' []]) ''a/2''
     = None"
proof -
  have d: "set_model_status [DeleteEvent ''a/1''] ''a/1'' = Some DELETE"
    by (simp add: set_model_status_def set_model_status_step_def)
  have n: "set_model_status ([DeleteEvent ''a/1''] @ [CreateEvent ''a/1'' [], UpdateEvent ''a/2'' []]) ''a/2''
     = None"
    by (simp add: set_model_status_def set_model_status_step_def)
  from d n C7_set_model_status
    [of "[DeleteEvent ''a/1'']" "UpdateEvent ''a/2'' []" "''a/1''"
        "[CreateEvent ''a/1'' [], UpdateEvent ''a/2'' []]"]
  show ?thesis by blast
qed

subsection \<open>\<open>will_exist\<close>\<close>

text \<open>
  Claim C8. \<open>will_exist(fqid)\<close> is true if and only if the new accessor reports the model
  as not deleted and the position's status for the fqid is not delete, or the position's
  status for the fqid is create. With the status that \<open>migrate\<close> computes from the events
  of the position this means: no event of the position deletes the model, and the accessor
  reports it as not deleted or an event of the position creates it.
\<close>

theorem C8_will_exist:
  "(will_exist self f \<longleftrightarrow>
     (new_accessor_model_not_deleted self f \<and> model_status self f \<noteq> Some DELETE)
     \<or> model_status self f = Some CREATE)
   \<and> (model_status self = set_model_status events \<longrightarrow>
        (will_exist self f \<longleftrightarrow>
           \<not> (\<exists>e \<in> set events. type e = DELETE \<and> fqid e = f)
           \<and> (new_accessor_model_not_deleted self f
                \<or> (\<exists>e \<in> set events. type e = CREATE \<and> fqid e = f))))"
proof -
  have a: "will_exist self f \<longleftrightarrow>
     (new_accessor_model_not_deleted self f \<and> model_status self f \<noteq> Some DELETE)
     \<or> model_status self f = Some CREATE"
    by (simp add: will_exist_def)
  have b: "model_status self = set_model_status events \<longrightarrow>
        (will_exist self f \<longleftrightarrow>
           \<not> (\<exists>e \<in> set events. type e = DELETE \<and> fqid e = f)
           \<and> (new_accessor_model_not_deleted self f
                \<or> (\<exists>e \<in> set events. type e = CREATE \<and> fqid e = f)))"
  proof
    assume ms: "model_status self = set_model_status events"
    have c: "set_model_status events f =
       (if \<exists>e \<in> set events. type e = DELETE \<and> fqid e = f then Some DELETE
        else if \<exists>e \<in> set events. type e = CREATE \<and> fqid e = f then Some CREATE
        else None)"
      unfolding set_model_status_def set_model_status_loop_char by simp
    show "will_exist self f \<longleftrightarrow>
           \<not> (\<exists>e \<in> set events. type e = DELETE \<and> fqid e = f)
           \<and> (new_accessor_model_not_deleted self f
                \<or> (\<exists>e \<in> set events. type e = CREATE \<and> fqid e = f))"
      unfolding will_exist_def ms c by (simp only: split: if_splits) blast
  qed
  from a b show ?thesis by (intro conjI)
qed

theorem C8_will_exist_witness:
  "will_exist \<lparr>new_accessor_model_not_deleted = (\<lambda>f. f = ''a/1''),
               model_status = set_model_status [DeleteEvent ''a/1'', CreateEvent ''a/2'' []]\<rparr> ''a/2''
   \<and> \<not> will_exist \<lparr>new_accessor_model_not_deleted = (\<lambda>f. f = ''a/1''),
               model_status = set_model_status [DeleteEvent ''a/1'', CreateEvent ''a/2'' []]\<rparr> ''a/1''"
  using C8_will_exist
    [of "\<lparr>new_accessor_model_not_deleted = (\<lambda>f. f = ''a/1''),
          model_status = set_model_status [DeleteEvent ''a/1'', CreateEvent ''a/2'' []]\<rparr>" "''a/2''"
        "[DeleteEvent ''a/1'', CreateEvent ''a/2'' []]"]
    C8_will_exist
    [of "\<lparr>new_accessor_model_not_deleted = (\<lambda>f. f = ''a/1''),
          model_status = set_model_status [DeleteEvent ''a/1'', CreateEvent ''a/2'' []]\<rparr>" "''a/1''"
        "[DeleteEvent ''a/1'', CreateEvent ''a/2'' []]"]
  by (simp add: set_model_status_def set_model_status_step_def)

subsection \<open>Construction of a migration\<close>

text \<open>
  Claim C9, as stated, fails: a migration whose target index is \<open>-2\<close>, which is no valid
  index, is constructed without an error.
\<close>

theorem C9_counterexample:
  "\<not> valid_migration_index (- 2)
   \<and> BaseMigration_init ''M'' (- 2) = Inr \<lparr>name = ''M'', target_migration_index = - 2\<rparr>"
  by (simp add: valid_migration_index_def BaseMigration_init_def)

text \<open>
  Claim C9, amended. Construction fails, with the setup error, exactly when the target
  index still has the value \<open>-1\<close> of the base class; with every other value, and so with
  every valid index, it returns the migration.
\<close>

theorem C9_BaseMigration_init:
  "(BaseMigration_init n tmi = Inl MigrationSetupException \<longleftrightarrow> tmi = - 1)
   \<and> (tmi \<noteq> - 1 \<longrightarrow> BaseMigration_init n tmi = Inr \<lparr>name = n, target_migration_index = tmi\<rparr>)
   \<and> (valid_migration_index tmi \<longrightarrow>
        BaseMigration_init n tmi = Inr \<lparr>name = n, target_migration_index = tmi\<rparr>)"
  by (auto simp: BaseMigration_init_def valid_migration_index_def)

theorem C9_BaseMigration_init_witness:
  "valid_migration_index 3 \<and> (3::int) \<noteq> - 1
   \<and> BaseMigration_init ''M'' 3 = Inr \<lparr>name = ''M'', target_migration_index = 3\<rparr>
   \<and> BaseMigration_init ''M'' (- 1) = Inl MigrationSetupException"
  using C9_BaseMigration_init [of "''M''" 3] C9_BaseMigration_init [of "''M''" "- 1"]
  by (simp add: valid_migration_index_def)

section \<open>Write pipeline results\<close>

subsection \<open>Reserving ids\<close>

text \<open>
  Claim C1. For a non-empty collection name of at most 32 characters and an amount of at
  least 1, with the sequence of the collection at \<open>s\<close>, \<open>reserve_next_ids\<close> returns the
  block \<open>s, ..., s + amount - 1\<close> of \<open>amount\<close> ids and leaves the sequence at \<open>s + amount\<close>.
  A collection without a row is served as if its sequence were at 1.
\<close>

theorem C1_reserve_next_ids:
  assumes "collection \<noteq> []" and "length collection \<le> 32" and "1 \<le> amount"
  shows "(t_id_sequences d collection = Some s \<longrightarrow>
           reserve_next_ids d collection amount
             = (Inr [s .. s + amount - 1],
                d\<lparr>t_id_sequences := (t_id_sequences d)(collection \<mapsto> s + amount)\<rparr>))
         \<and> (t_id_sequences d collection = None \<longrightarrow>
           reserve_next_ids d collection amount
             = (Inr [1 .. 1 + amount - 1],
                d\<lparr>t_id_sequences := (t_id_sequences d)(collection \<mapsto> 1 + amount)\<rparr>))
         \<and> length [s .. s + amount - 1] = nat amount"
  using assms
  by (simp add: reserve_next_ids_def reserve_upsert_def COLLECTION_MAX_LEN_def Let_def
      add.commute)

theorem C1_reserve_next_ids_witness:
  "reserve_next_ids example_db ''motion'' 3
     = (Inr [10, 11, 12], example_db\<lparr>t_id_sequences := [''motion'' \<mapsto> 13]\<rparr>)
   \<and> reserve_next_ids (example_db\<lparr>t_id_sequences := [''motion'' \<mapsto> 13]\<rparr>) ''motion'' 1
     = (Inr [13], example_db\<lparr>t_id_sequences := [''motion'' \<mapsto> 14]\<rparr>)"
proof -
  have a: "t_id_sequences example_db ''motion'' = Some 10"
    by (simp add: example_db_def)
  have b: "t_id_sequences (example_db\<lparr>t_id_sequences := [''motion'' \<mapsto> 13]\<rparr>) ''motion'' = Some 13"
    by simp
  have u: "[10 .. 10 + 3 - 1] = [10, 11, (12::int)]" "[13 .. 13 + 1 - 1] = [13::int]"
    by (simp_all add: upto.simps)
  from C1_reserve_next_ids [of "''motion''" 3 example_db 10] a
    C1_reserve_next_ids [of "''motion''" 1 "example_db\<lparr>t_id_sequences := [''motion'' \<mapsto> 13]\<rparr>" 13] b
  show ?thesis
    unfolding u by (simp add: example_db_def)
qed

subsection \<open>An empty event list\<close>

text \<open>
  Claim C2. \<open>insert_events\<close> with an empty event list raises \<open>BadCodingError\<close> and leaves
  the database as it was: no position, model, event, collectionfield or id-sequence row is
  written.
\<close>

theorem C2_insert_events_empty:
  "insert_events E d [] migration_index information user_id = (Inl BadCodingError, d)"
  by (simp add: insert_events_def)

subsection \<open>An fqid that is too long\<close>

lemma collect_fqids_long:
  "\<exists>e \<in> set events. length (req_fqid e) > FQID_MAX_LEN \<Longrightarrow>
     collect_fqids S events = Inl InvalidFormat"
  by (induction events arbitrary: S) auto

lemma insert_events_long:
  assumes "\<exists>e \<in> set events. length (req_fqid e) > FQID_MAX_LEN"
  shows "insert_events E d events mi info uid
     = (Inl InvalidFormat,
        d\<lparr>t_positions := t_positions d @ [(seq_positions_position d, mi, uid, to_json E info)],
          seq_positions_position := seq_positions_position d + 1\<rparr>)"
proof -
  from assms have ne: "events \<noteq> []" by auto
  show ?thesis
    using ne
    by (simp add: insert_events_def get_models_from_events_def collect_fqids_long[OF assms]
        create_position_def Let_def)
qed

text \<open>
  Claim C3, as stated, fails: the position row is inserted before the fqids are checked.
  With a second request whose fqid has 49 characters the call raises \<open>InvalidFormat\<close>, and
  the table of positions, empty before, holds a row.
\<close>

theorem C3_counterexample:
  "length (req_fqid (long_fqid_requests ! 1)) = 49
   \<and> fst (insert_events example_env example_db long_fqid_requests 1 JNull 7) = Inl InvalidFormat
   \<and> t_positions example_db = []
   \<and> t_positions (snd (insert_events example_env example_db long_fqid_requests 1 JNull 7))
       = [(1, 1, 7, ''null'')]"
proof -
  have l: "\<exists>e \<in> set long_fqid_requests. length (req_fqid e) > FQID_MAX_LEN"
    by (simp add: long_fqid_requests_def FQID_MAX_LEN_def)
  show ?thesis
    unfolding insert_events_long[OF l]
    by (simp add: long_fqid_requests_def example_db_def example_env_def)
qed

text \<open>
  Claim C3, amended. When some event has an fqid longer than 48 characters, the call fails
  with the format error after the position row has been inserted and before any further
  work: the outcome does not depend on the read database, the translator or the
  projection, and the tables of models, events, collectionfields, links and id sequences
  are as before.
\<close>

theorem C3_insert_events_long_fqid:
  assumes "\<exists>e \<in> set events. length (req_fqid e) > 48"
  shows "insert_events E d events mi info uid
     = (Inl InvalidFormat,
        d\<lparr>t_positions := t_positions d @ [(seq_positions_position d, mi, uid, to_json E info)],
          seq_positions_position := seq_positions_position d + 1\<rparr>)
   \<and> insert_events (E\<lparr>translate := tr, get_many := gm, db_events_apply_event_to_models := ap\<rparr>)
        d events mi info uid
     = insert_events E d events mi info uid
   \<and> t_models (snd (insert_events E d events mi info uid)) = t_models d
   \<and> t_events (snd (insert_events E d events mi info uid)) = t_events d
   \<and> t_collectionfields (snd (insert_events E d events mi info uid)) = t_collectionfields d
   \<and> t_events_to_collectionfields (snd (insert_events E d events mi info uid))
       = t_events_to_collectionfields d
   \<and> t_id_sequences (snd (insert_events E d events mi info uid)) = t_id_sequences d"
proof -
  from assms have l: "\<exists>e \<in> set events. length (req_fqid e) > FQID_MAX_LEN"
    by (simp add: FQID_MAX_LEN_def)
  show ?thesis
    unfolding insert_events_long[OF l] by simp
qed

theorem C3_insert_events_long_fqid_witness:
  "(\<exists>e \<in> set long_fqid_requests. length (req_fqid e) > 48)
   \<and> insert_events example_env example_db long_fqid_requests 1 JNull 7
     = (Inl InvalidFormat,
        example_db\<lparr>t_positions := [(1, 1, 7, ''null'')], seq_positions_position := 2\<rparr>)"
proof -
  have l: "\<exists>e \<in> set long_fqid_requests. length (req_fqid e) > 48"
    by (simp add: long_fqid_requests_def)
  from C3_insert_events_long_fqid [OF l, of example_env example_db 1 JNull 7] l
  show ?thesis
    by (simp add: example_db_def example_env_def)
qed

subsection \<open>Weights\<close>

lemma event_rows_append:
  "event_rows E p w (xs @ ys) = event_rows E p w xs @ event_rows E p (w + int (length xs)) ys"
  by (induction xs arbitrary: w) (simp_all add: add.assoc)

lemma length_event_rows: "length (event_rows E p w evs) = length evs"
  by (induction evs arbitrary: w) simp_all

lemma event_rows_weights:
  "map (\<lambda>(p, f, t, dat, w). w) (event_rows E p w evs) = [w + 1 .. w + int (length evs)]"
proof (induction evs arbitrary: w)
  case Nil
  then show ?case by simp
next
  case (Cons ev evs)
  have "[w + 1 .. w + int (length (ev # evs))] = (w + 1) # [w + 1 + 1 .. w + 1 + int (length evs)]"
    by (subst upto_rec1) (simp_all add: ac_simps)
  with Cons.IH[of "w + 1"] show ?case by simp
qed

lemma event_rows_positions: "\<forall>r \<in> set (event_rows E p w evs). fst r = p"
  by (induction evs arbitrary: w) simp_all

lemma process_db_event_data:
  "process_db_event E p st ev = Inr st' \<Longrightarrow>
     weight st' = weight st + 1 \<and> events_data st' = events_data st @ event_rows E p (weight st) [ev]"
  by (auto simp: process_db_event_def Let_def split: sum.splits prod.splits)

lemma process_db_events_data:
  "process_db_events E p st evs = Inr st' \<Longrightarrow>
     weight st' = weight st + int (length evs)
     \<and> events_data st' = events_data st @ event_rows E p (weight st) evs"
proof (induction evs arbitrary: st)
  case Nil
  then show ?case by simp
next
  case (Cons ev evs)
  from Cons.prems obtain st1 where 1: "process_db_event E p st ev = Inr st1"
    and 2: "process_db_events E p st1 evs = Inr st'"
    by (auto split: sum.splits)
  from process_db_event_data[OF 1] Cons.IH[OF 2] show ?case by simp
qed

lemma process_events_data:
  "process_events E p st events = Inr st' \<Longrightarrow>
     weight st' = weight st + int (length (translated_events E p st events))
     \<and> events_data st' = events_data st @ event_rows E p (weight st) (translated_events E p st events)"
proof (induction events arbitrary: st)
  case Nil
  then show ?case by simp
next
  case (Cons event events)
  from Cons.prems obtain evs st1 where 0: "translate E event (models st) = Inr evs"
    and 1: "process_db_events E p st evs = Inr st1"
    and 2: "process_events E p st1 events = Inr st'"
    by (auto split: sum.splits)
  from process_db_events_data[OF 1] Cons.IH[OF 2] 0 1 show ?case
    by (simp add: event_rows_append)
qed

lemma t_events_upsert:
  "t_events (snd (fold upsert_collectionfield args acc)) = t_events (snd acc)"
proof (induction args arbitrary: acc)
  case Nil
  then show ?case by simp
next
  case (Cons a args)
  have "t_events (snd (upsert_collectionfield a acc)) = t_events (snd acc)"
    by (cases a; cases acc) (simp add: upsert_collectionfield_def split: option.splits prod.splits)
  with Cons show ?case by simp
qed

lemma write_model_updates_events:
  "write_model_updates E d ms = Inr d' \<Longrightarrow> t_events d' = t_events d \<and> seq_events_id d' = seq_events_id d"
  by (auto simp: write_model_updates_def split: sum.splits)

lemma insert_cf_events:
  "insert_modified_collectionfields_into_db d cfs p = Inr (ids, d') \<Longrightarrow> t_events d' = t_events d"
proof -
  assume a: "insert_modified_collectionfields_into_db d cfs p = Inr (ids, d')"
  then obtain args where "fold upsert_collectionfield args ([], d) = (ids, d')"
    by (auto simp: insert_modified_collectionfields_into_db_def split: sum.splits)
  with t_events_upsert[of args "([], d)"] show ?thesis by simp
qed

lemma connect_events:
  "connect_events_and_collection_fields d eids cids order = Inr d' \<Longrightarrow> t_events d' = t_events d"
  by (auto simp: connect_events_and_collection_fields_def split: sum.splits)

lemma insert_events_t_events:
  assumes "insert_events E d events mi info uid = (Inr (position, modified), d')"
  shows "t_events d' = t_events d @
           zip (map (\<lambda>i. seq_events_id d + int i)
                  [0 ..< length (insert_events_translated E d events mi info uid)])
               (event_rows E position 0 (insert_events_translated E d events mi info uid))
         \<and> position = seq_positions_position d"
proof -
  define d1 where "d1 = snd (create_position E d mi info uid)"
  define p where "p = fst (create_position E d mi info uid)"
  have cp: "create_position E d mi info uid = (p, d1)" by (simp add: d1_def p_def)
  have p: "p = seq_positions_position d" by (simp add: p_def create_position_def Let_def)
  have d1: "t_events d1 = t_events d" "seq_events_id d1 = seq_events_id d"
    by (simp_all add: d1_def create_position_def Let_def)
  define st0 where "st0 = (\<lambda>models0. \<lparr>weight = 0, events_data = [],
                event_indices_per_modified_collectionfield = [],
                max_id_per_collection = [], models = models0,
                modified_models = []\<rparr>)"
  from assms have ne: "events \<noteq> []" by (auto simp: insert_events_def)
  from assms ne cp obtain models0 where m0: "get_models_from_events E d1 events = Inr models0"
    by (auto simp: insert_events_def split: sum.splits)
  from assms ne cp m0 obtain st where st: "process_events E p (st0 models0) events = Inr st"
    by (auto simp: insert_events_def st0_def split: sum.splits)
  define d2 where "d2 = update_id_sequences d1 (max_id_per_collection st)"
  have d2: "t_events d2 = t_events d" "seq_events_id d2 = seq_events_id d"
    by (simp_all add: d2_def update_id_sequences_def d1)
  from assms ne cp m0 st obtain d3 where d3: "write_model_updates E d2 (models st) = Inr d3"
    by (auto simp: insert_events_def st0_def d2_def Let_def split: sum.splits)
  define d4 where "d4 = snd (write_events d3 (events_data st))"
  define eids where "eids = fst (write_events d3 (events_data st))"
  have we: "write_events d3 (events_data st) = (eids, d4)" by (simp add: d4_def eids_def)
  from assms ne cp m0 st d3 we obtain cids d5 where d5:
    "insert_modified_collectionfields_into_db d4
       (map fst (event_indices_per_modified_collectionfield st)) p = Inr (cids, d5)"
    by (auto simp: insert_events_def st0_def d2_def Let_def split: sum.splits)
  from assms ne cp m0 st d3 we d5 have d6:
    "connect_events_and_collection_fields d5 eids cids
       (map snd (event_indices_per_modified_collectionfield st)) = Inr d'" and pos: "position = p"
    by (auto simp: insert_events_def st0_def d2_def Let_def split: sum.splits)
  have tr: "insert_events_translated E d events mi info uid = translated_events E p (st0 models0) events"
    by (simp add: insert_events_translated_def cp m0 st0_def)
  from process_events_data[OF st]
  have ed: "events_data st = event_rows E p 0 (translated_events E p (st0 models0) events)"
    by (simp add: st0_def)
  have "t_events d' = t_events d4"
    using connect_events[OF d6] insert_cf_events[OF d5] by simp
  also have "\<dots> = t_events d3 @ zip (map (\<lambda>i. seq_events_id d3 + int i) [0 ..< length (events_data st)])
      (events_data st)"
    by (simp add: d4_def write_events_def Let_def)
  finally show ?thesis
    using write_model_updates_events[OF d3] d2 ed tr pos p by (simp add: length_event_rows)
qed

lemma upsert_frame:
  "t_positions (snd (fold upsert_collectionfield args acc)) = t_positions (snd acc)
   \<and> seq_positions_position (snd (fold upsert_collectionfield args acc))
       = seq_positions_position (snd acc)"
proof (induction args arbitrary: acc)
  case Nil
  then show ?case by simp
next
  case (Cons a args)
  have "t_positions (snd (upsert_collectionfield a acc)) = t_positions (snd acc)
     \<and> seq_positions_position (snd (upsert_collectionfield a acc)) = seq_positions_position (snd acc)"
    by (cases a; cases acc) (simp add: upsert_collectionfield_def split: option.splits prod.splits)
  with Cons show ?case by simp
qed

lemma write_model_updates_frame:
  "write_model_updates E d ms = Inr d' \<Longrightarrow>
     t_positions d' = t_positions d \<and> seq_positions_position d' = seq_positions_position d"
  by (auto simp: write_model_updates_def split: sum.splits)

lemma insert_cf_frame:
  "insert_modified_collectionfields_into_db d cfs p = Inr (ids, d') \<Longrightarrow>
     t_positions d' = t_positions d \<and> seq_positions_position d' = seq_positions_position d"
proof -
  assume a: "insert_modified_collectionfields_into_db d cfs p = Inr (ids, d')"
  then obtain args where "fold upsert_collectionfield args ([], d) = (ids, d')"
    by (auto simp: insert_modified_collectionfields_into_db_def split: sum.splits)
  with upsert_frame[of args "([], d)"] show ?thesis by simp
qed

lemma connect_frame:
  "connect_events_and_collection_fields d eids cids order = Inr d' \<Longrightarrow>
     t_positions d' = t_positions d \<and> seq_positions_position d' = seq_positions_position d"
  by (auto simp: connect_events_and_collection_fields_def split: sum.splits)

lemma insert_events_t_positions:
  assumes "insert_events E d events mi info uid = (Inr (position, modified), d')"
  shows "t_positions d' = t_positions d @ [(seq_positions_position d, mi, uid, to_json E info)]
         \<and> seq_positions_position d' = seq_positions_position d + 1"
proof -
  define d1 where "d1 = snd (create_position E d mi info uid)"
  define p where "p = fst (create_position E d mi info uid)"
  have cp: "create_position E d mi info uid = (p, d1)" by (simp add: d1_def p_def)
  have d1: "t_positions d1 = t_positions d @ [(seq_positions_position d, mi, uid, to_json E info)]"
    "seq_positions_position d1 = seq_positions_position d + 1"
    by (simp_all add: d1_def create_position_def Let_def)
  define st0 where "st0 = (\<lambda>models0. \<lparr>weight = 0, events_data = [],
                event_indices_per_modified_collectionfield = [],
                max_id_per_collection = [], models = models0,
                modified_models = []\<rparr>)"
  from assms have ne: "events \<noteq> []" by (auto simp: insert_events_def)
  from assms ne cp obtain models0 where m0: "get_models_from_events E d1 events = Inr models0"
    by (auto simp: insert_events_def split: sum.splits)
  from assms ne cp m0 obtain st where st: "process_events E p (st0 models0) events = Inr st"
    by (auto simp: insert_events_def st0_def split: sum.splits)
  define d2 where "d2 = update_id_sequences d1 (max_id_per_collection st)"
  have d2: "t_positions d2 = t_positions d1" "seq_positions_position d2 = seq_positions_position d1"
    by (simp_all add: d2_def update_id_sequences_def)
  from assms ne cp m0 st obtain d3 where d3: "write_model_updates E d2 (models st) = Inr d3"
    by (auto simp: insert_events_def st0_def d2_def Let_def split: sum.splits)
  define d4 where "d4 = snd (write_events d3 (events_data st))"
  define eids where "eids = fst (write_events d3 (events_data st))"
  have we: "write_events d3 (events_data st) = (eids, d4)" by (simp add: d4_def eids_def)
  have d4: "t_positions d4 = t_positions d3" "seq_positions_position d4 = seq_positions_position d3"
    by (simp_all add: d4_def write_events_def Let_def)
  from assms ne cp m0 st d3 we obtain cids d5 where d5:
    "insert_modified_collectionfields_into_db d4
       (map fst (event_indices_per_modified_collectionfield st)) p = Inr (cids, d5)"
    by (auto simp: insert_events_def st0_def d2_def Let_def split: sum.splits)
  from assms ne cp m0 st d3 we d5 have d6:
    "connect_events_and_collection_fields d5 eids cids
       (map snd (event_indices_per_modified_collectionfield st)) = Inr d'"
    by (auto simp: insert_events_def st0_def d2_def Let_def split: sum.splits)
  from connect_frame[OF d6] insert_cf_frame[OF d5] d4 write_model_updates_frame[OF d3] d2 d1
  show ?thesis by simp
qed

lemma filter_fresh:
  assumes "list_all (\<lambda>r. row_position r < p) xs" and "\<forall>r \<in> set ys. row_position r = p"
  shows "filter (\<lambda>r. row_position r = p) (xs @ ys) = ys"
    and "q \<noteq> p \<Longrightarrow> filter (\<lambda>r. row_position r = q) (xs @ ys) = filter (\<lambda>r. row_position r = q) xs"
proof -
  from assms(1) have "filter (\<lambda>r. row_position r = p) xs = []"
    by (auto simp: list_all_iff filter_empty_conv)
  moreover from assms(2) have "filter (\<lambda>r. row_position r = p) ys = ys"
    by (simp add: filter_id_conv)
  ultimately show "filter (\<lambda>r. row_position r = p) (xs @ ys) = ys" by simp
  assume "q \<noteq> p"
  with assms(2) have "filter (\<lambda>r. row_position r = q) ys = []"
    by (auto simp: filter_empty_conv)
  then show "filter (\<lambda>r. row_position r = q) (xs @ ys) = filter (\<lambda>r. row_position r = q) xs"
    by simp
qed

lemma insert_events_new_rows:
  assumes "insert_events E d events mi info uid = (Inr (position, modified), d')"
  shows "t_events d' = t_events d @ new_event_rows d d'
   \<and> map row_weight (new_event_rows d d') = [1 .. int (length (new_event_rows d d'))]
   \<and> map snd (new_event_rows d d')
       = event_rows E position 0 (insert_events_translated E d events mi info uid)
   \<and> map (\<lambda>r. fst (snd (snd r))) (new_event_rows d d')
       = map db_fqid (insert_events_translated E d events mi info uid)
   \<and> (\<forall>r \<in> set (new_event_rows d d'). row_position r = position)
   \<and> sorted_wrt (<) (map row_weight (new_event_rows d d'))"
proof -
  define evs where "evs = insert_events_translated E d events mi info uid"
  define ids where "ids = map (\<lambda>i. seq_events_id d + int i) [0 ..< length evs]"
  define rows where "rows = event_rows E position 0 evs"
  have len: "length ids = length rows"
    by (simp add: ids_def rows_def length_event_rows)
  from insert_events_t_events[OF assms]
  have t: "t_events d' = t_events d @ zip ids rows"
    by (simp add: ids_def rows_def evs_def)
  then have new: "new_event_rows d d' = zip ids rows"
    by (simp add: new_event_rows_def)
  have snd_new: "map snd (zip ids rows) = rows"
    using len by simp
  have w_eq: "map row_weight (zip ids rows) = map (\<lambda>(p, f, t, dat, w). w) (map snd (zip ids rows))"
    by (simp add: row_weight_def split_def)
  have weights: "map row_weight (zip ids rows) = [1 .. int (length (zip ids rows))]"
    unfolding w_eq snd_new using len
    by (simp add: rows_def event_rows_weights length_event_rows)
  have fq: "\<And>w. map (\<lambda>r. fst (snd r)) (event_rows E position w evs) = map db_fqid evs"
  proof -
    fix w show "map (\<lambda>r. fst (snd r)) (event_rows E position w evs) = map db_fqid evs"
      by (induction evs arbitrary: w) simp_all
  qed
  have fqids: "map (\<lambda>r. fst (snd (snd r))) (zip ids rows) = map db_fqid evs"
  proof -
    have "map (\<lambda>r. fst (snd (snd r))) (zip ids rows) = map (\<lambda>r. fst (snd r)) (map snd (zip ids rows))"
      by simp
    then show ?thesis unfolding snd_new by (simp add: rows_def fq)
  qed
  have positions: "\<forall>r \<in> set (zip ids rows). row_position r = position"
  proof
    fix r assume r: "r \<in> set (zip ids rows)"
    then have "snd r \<in> set rows" by (metis in_set_zipE prod.collapse)
    with event_rows_positions[of E position 0 evs] have "fst (snd r) = position"
      by (simp add: rows_def)
    then show "row_position r = position"
      by (simp add: row_position_def split_def)
  qed
  have strict: "sorted_wrt (<) (map row_weight (zip ids rows))"
    unfolding weights by (simp add: strict_sorted_iff)
  from t weights snd_new fqids positions strict show ?thesis
    unfolding new rows_def evs_def by (intro conjI)
qed

text \<open>
  Claim C4. A successful call returns the position that the counter of the sequence held,
  inserts its row and advances the counter. The event rows the call adds carry the weights
  \<open>1, 2, 3, ...\<close> in the order of the rows, one counter over all translated events of the
  call; they are the translated events in the order of translation, each with the new
  position. In a database whose stored positions lie below the counter the new position is
  fresh and its event rows are exactly the added ones, so its weights start at 1 and
  increase strictly; the rows of every other position are untouched, the stored positions
  lie below the counter again, and when the weights within every position were
  \<open>1, 2, 3, ...\<close> before the call, they are so after it.
\<close>

theorem C4_insert_events_weights:
  assumes ok: "insert_events E d events mi info uid = (Inr (position, modified), d')"
  shows "position = seq_positions_position d
   \<and> t_positions d' = t_positions d @ [(position, mi, uid, to_json E info)]
   \<and> seq_positions_position d' = position + 1
   \<and> t_events d' = t_events d @ new_event_rows d d'
   \<and> map row_weight (new_event_rows d d') = [1 .. int (length (new_event_rows d d'))]
   \<and> map snd (new_event_rows d d')
       = event_rows E position 0 (insert_events_translated E d events mi info uid)
   \<and> map (\<lambda>r. fst (snd (snd r))) (new_event_rows d d')
       = map db_fqid (insert_events_translated E d events mi info uid)
   \<and> (\<forall>r \<in> set (new_event_rows d d'). row_position r = position)
   \<and> sorted_wrt (<) (map row_weight (new_event_rows d d'))
   \<and> (db_positions_fresh d \<longrightarrow>
        position \<notin> row_position ` set (t_events d)
        \<and> position \<notin> fst ` set (t_positions d)
        \<and> filter (\<lambda>r. row_position r = position) (t_events d') = new_event_rows d d'
        \<and> position_weights d' position = [1 .. int (length (position_weights d' position))]
        \<and> sorted_wrt (<) (position_weights d' position)
        \<and> (\<forall>q. q \<noteq> position \<longrightarrow> position_weights d' q = position_weights d q)
        \<and> db_positions_fresh d'
        \<and> (weights_wellformed d \<longrightarrow> weights_wellformed d'))"
proof -
  note rows = insert_events_new_rows[OF ok]
  from rows have app: "t_events d' = t_events d @ new_event_rows d d'"
    and w: "map row_weight (new_event_rows d d') = [1 .. int (length (new_event_rows d d'))]"
    and allp: "\<forall>r \<in> set (new_event_rows d d'). row_position r = position"
    and strict: "sorted_wrt (<) (map row_weight (new_event_rows d d'))"
    by blast+
  from insert_events_t_events[OF ok] have pos: "position = seq_positions_position d" by simp
  from insert_events_t_positions[OF ok] pos
  have tp: "t_positions d' = t_positions d @ [(position, mi, uid, to_json E info)]"
    and sq: "seq_positions_position d' = position + 1"
    by simp_all
  have fresh: "db_positions_fresh d \<longrightarrow>
        position \<notin> row_position ` set (t_events d)
        \<and> position \<notin> fst ` set (t_positions d)
        \<and> filter (\<lambda>r. row_position r = position) (t_events d') = new_event_rows d d'
        \<and> position_weights d' position = [1 .. int (length (position_weights d' position))]
        \<and> sorted_wrt (<) (position_weights d' position)
        \<and> (\<forall>q. q \<noteq> position \<longrightarrow> position_weights d' q = position_weights d q)
        \<and> db_positions_fresh d'
        \<and> (weights_wellformed d \<longrightarrow> weights_wellformed d')"
  proof
    assume f: "db_positions_fresh d"
    then have below: "list_all (\<lambda>r. row_position r < position) (t_events d)"
      and below': "list_all (\<lambda>r. fst r < position) (t_positions d)"
      by (simp_all add: db_positions_fresh_def pos)
    from below have n1: "position \<notin> row_position ` set (t_events d)"
      by (auto simp: list_all_iff)
    from below' have n2: "position \<notin> fst ` set (t_positions d)"
      by (auto simp: list_all_iff)
    have "filter (\<lambda>r. row_position r = position) (t_events d @ new_event_rows d d')
        = new_event_rows d d'"
      using allp by (rule filter_fresh(1)[OF below])
    then have flt: "filter (\<lambda>r. row_position r = position) (t_events d') = new_event_rows d d'"
      by (simp only: app[symmetric])
    have pw: "position_weights d' position = map row_weight (new_event_rows d d')"
      by (simp add: position_weights_def flt)
    have pw1: "position_weights d' position = [1 .. int (length (position_weights d' position))]"
      unfolding pw using w by simp
    have pw2: "sorted_wrt (<) (position_weights d' position)"
      unfolding pw by (rule strict)
    have other: "\<forall>q. q \<noteq> position \<longrightarrow> position_weights d' q = position_weights d q"
    proof (intro allI impI)
      fix q assume q: "q \<noteq> position"
      have "filter (\<lambda>r. row_position r = q) (t_events d @ new_event_rows d d')
          = filter (\<lambda>r. row_position r = q) (t_events d)"
        using filter_fresh(2)[OF below, of "new_event_rows d d'" q] allp q by simp
      then show "position_weights d' q = position_weights d q"
        unfolding position_weights_def using app by simp
    qed
    have f': "db_positions_fresh d'"
    proof -
      have "list_all (\<lambda>r. row_position r < position + 1) (t_events d @ new_event_rows d d')"
        using below allp by (auto simp: list_all_iff)
      moreover have "list_all (\<lambda>r. fst r < position + 1) (t_positions d')"
        using below' by (auto simp: list_all_iff tp)
      ultimately show ?thesis
        using app by (simp add: db_positions_fresh_def sq)
    qed
    have wf: "weights_wellformed d \<longrightarrow> weights_wellformed d'"
    proof
      assume wd: "weights_wellformed d"
      show "weights_wellformed d'"
        unfolding weights_wellformed_def list_all_iff
      proof
        fix q assume "q \<in> set (map row_position (t_events d'))"
        then have "q \<in> row_position ` set (t_events d) \<or> q \<in> row_position ` set (new_event_rows d d')"
          using app by auto
        then show "position_weights d' q = [1 .. int (length (position_weights d' q))]"
        proof (cases "q = position")
          case True
          with pw1 show ?thesis by simp
        next
          case False
          assume "q \<in> row_position ` set (t_events d) \<or> q \<in> row_position ` set (new_event_rows d d')"
          with False allp have "q \<in> set (map row_position (t_events d))" by auto
          with wd have "position_weights d q = [1 .. int (length (position_weights d q))]"
            by (auto simp: weights_wellformed_def list_all_iff)
          with other False show ?thesis by simp
        qed
      qed
    qed
    from n1 n2 flt pw1 pw2 other f' wf
    show "position \<notin> row_position ` set (t_events d)
        \<and> position \<notin> fst ` set (t_positions d)
        \<and> filter (\<lambda>r. row_position r = position) (t_events d') = new_event_rows d d'
        \<and> position_weights d' position = [1 .. int (length (position_weights d' position))]
        \<and> sorted_wrt (<) (position_weights d' position)
        \<and> (\<forall>q. q \<noteq> position \<longrightarrow> position_weights d' q = position_weights d q)
        \<and> db_positions_fresh d'
        \<and> (weights_wellformed d \<longrightarrow> weights_wellformed d')"
      by (intro conjI)
  qed
  from rows have r3: "map snd (new_event_rows d d')
       = event_rows E position 0 (insert_events_translated E d events mi info uid)"
    and r4: "map (\<lambda>r. fst (snd (snd r))) (new_event_rows d d')
       = map db_fqid (insert_events_translated E d events mi info uid)"
    by blast+
  from pos tp sq app w r3 r4 allp strict fresh show ?thesis
    by (intro conjI)
qed

lemmas pipeline_defs = insert_events_def example_env_def example_translate_def
  example_apply_def example_requests_def
  create_position_def get_models_from_events_def FQID_MAX_LEN_def process_db_event_def
  apply_event_to_models_def get_modified_collectionfields_from_event_def append_index_def
  update_fields_def update_id_sequences_def write_model_updates_def write_events_def
  insert_modified_collectionfields_into_db_def COLLECTIONFIELD_MAX_LEN_def
  upsert_collectionfield_def connect_events_and_collection_fields_def py_index_def Let_def

lemma example_insert_events:
  "fst (insert_events example_env example_db example_requests 1 JNull 7)
     = Inr (1, [(''motion/1'', [(''title'', JStr ''b''), (''text'', JNull)])])
   \<and> t_events (snd (insert_events example_env example_db example_requests 1 JNull 7))
     = [(1, 1, ''motion/1'', CREATE, ''a'', 1), (2, 1, ''motion/1'', UPDATE, ''null'', 2),
        (3, 1, ''motion/1'', UPDATE, ''b'', 3)]"
  by (simp add: pipeline_defs example_db_def)

lemma example_second_call:
  "fst (insert_events example_env example_db1 example_requests 1 JNull 8)
     = Inr (2, [(''motion/1'', [(''title'', JStr ''b''), (''text'', JNull)])])
   \<and> t_events (snd (insert_events example_env example_db1 example_requests 1 JNull 8))
     = [(1, 1, ''motion/1'', CREATE, ''a'', 1), (2, 1, ''motion/1'', UPDATE, ''null'', 2),
        (3, 1, ''motion/1'', UPDATE, ''b'', 3), (4, 2, ''motion/1'', CREATE, ''a'', 1),
        (5, 2, ''motion/1'', UPDATE, ''null'', 2), (6, 2, ''motion/1'', UPDATE, ''b'', 3)]"
  unfolding example_db1_def
  by (simp add: pipeline_defs example_db_def)

theorem C4_insert_events_weights_witness:
  "db_positions_fresh example_db \<and> weights_wellformed example_db
   \<and> insert_events example_env example_db example_requests 1 JNull 7
     = (Inr (1, [(''motion/1'', [(''title'', JStr ''b''), (''text'', JNull)])]), example_db1)
   \<and> position_weights example_db1 1 = [1, 2, 3]
   \<and> db_positions_fresh example_db1 \<and> weights_wellformed example_db1
   \<and> insert_events example_env example_db1 example_requests 1 JNull 8
     = (Inr (2, [(''motion/1'', [(''title'', JStr ''b''), (''text'', JNull)])]), example_db2)
   \<and> position_weights example_db2 1 = [1, 2, 3]
   \<and> position_weights example_db2 2 = [1, 2, 3]
   \<and> db_positions_fresh example_db2 \<and> weights_wellformed example_db2"
proof -
  have f0: "db_positions_fresh example_db" and w0: "weights_wellformed example_db"
    by (simp_all add: db_positions_fresh_def weights_wellformed_def example_db_def)
  have h1: "insert_events example_env example_db example_requests 1 JNull 7
     = (Inr (1, [(''motion/1'', [(''title'', JStr ''b''), (''text'', JNull)])]), example_db1)"
    using example_insert_events by (simp add: prod_eq_iff example_db1_def)
  have h2: "insert_events example_env example_db1 example_requests 1 JNull 8
     = (Inr (2, [(''motion/1'', [(''title'', JStr ''b''), (''text'', JNull)])]), example_db2)"
    using example_second_call by (simp add: prod_eq_iff example_db2_def)
  from C4_insert_events_weights [OF h1] f0 w0
  have f1: "db_positions_fresh example_db1" and w1: "weights_wellformed example_db1"
    by blast+
  from C4_insert_events_weights [OF h2] f1 w1
  have f2: "db_positions_fresh example_db2" and w2: "weights_wellformed example_db2"
    and keep: "position_weights example_db2 1 = position_weights example_db1 1"
    by simp_all
  have p1: "position_weights example_db1 1 = [1, 2, 3]"
    using example_insert_events
    by (simp add: position_weights_def example_db1_def row_position_def row_weight_def)
  have p2: "position_weights example_db2 2 = [1, 2, 3]"
    using example_second_call
    by (simp add: position_weights_def example_db2_def row_position_def row_weight_def)
  from f0 w0 h1 p1 f1 w1 h2 keep p2 f2 w2 show ?thesis
    by simp
qed

section \<open>In-memory reader results\<close>

lemma py_min_loop_mem: "py_min_loop cur vs = Inr v \<Longrightarrow> v \<in> set (cur # vs)"
  by (induction vs arbitrary: cur) (auto split: sum.splits bool.splits)

lemma py_max_loop_mem: "py_max_loop cur vs = Inr v \<Longrightarrow> v \<in> set (cur # vs)"
  by (induction vs arbitrary: cur) (auto split: sum.splits bool.splits)

lemma py_min_mem: "py_min vs = Inr v \<Longrightarrow> v \<in> set vs"
  by (cases vs) (auto simp: py_min_def dest: py_min_loop_mem)

lemma py_max_mem: "py_max vs = Inr v \<Longrightarrow> v \<in> set vs"
  by (cases vs) (auto simp: py_max_def dest: py_max_loop_mem)

lemma set_map_filter: "set (List.map_filter f xs) = {v. \<exists>x \<in> set xs. f x = Some v}"
  by (induction xs) (auto split: option.splits)

lemma map_filter_empty: "(List.map_filter f xs = []) = (\<forall>x \<in> set xs. f x = None)"
  by (induction xs) (auto split: option.splits)

lemma minmax_none:
  "\<forall>model \<in> set (filtered_models self c flt). \<not> contains_field model field \<Longrightarrow>
     minmax self c flt field func = Inr JNull"
  by (simp add: minmax_def Let_def map_filter_empty filtered_models_def contains_field_def)

lemma minmax_null_iff:
  assumes mem: "\<And>vs v. func vs = Inr v \<Longrightarrow> v \<in> set vs"
    and nn: "\<forall>model \<in> set (filtered_models self c flt). map_of model field \<noteq> Some JNull"
  shows "(minmax self c flt field func = Inr JNull)
       = (\<forall>model \<in> set (filtered_models self c flt). \<not> contains_field model field)"
proof
  assume r: "minmax self c flt field func = Inr JNull"
  define vals where "vals = List.map_filter (\<lambda>model. map_of model field) (filtered_models self c flt)"
  have nin: "JNull \<notin> set vals"
    using nn by (auto simp: vals_def set_map_filter)
  have "vals = []"
  proof (rule ccontr)
    assume ne: "vals \<noteq> []"
    with r have "func vals = Inr JNull"
      by (simp add: minmax_def Let_def vals_def filtered_models_def)
    from mem[OF this] nin show False by simp
  qed
  then show "\<forall>model \<in> set (filtered_models self c flt). \<not> contains_field model field"
    by (simp add: vals_def map_filter_empty contains_field_def)
next
  assume "\<forall>model \<in> set (filtered_models self c flt). \<not> contains_field model field"
  then show "minmax self c flt field func = Inr JNull" by (rule minmax_none)
qed

lemma py_min_loop_ints: "py_min_loop (JInt c) (map JInt is) = Inr (JInt (fold min is c))"
proof (induction "is" arbitrary: c)
  case Nil
  then show ?case by simp
next
  case (Cons a "is")
  show ?case
  proof (cases "a < c")
    case True
    then have "min a c = a" by simp
    with True Cons.IH[of a] show ?thesis by simp
  next
    case False
    then have "min a c = c" by simp
    with False Cons.IH[of c] show ?thesis by simp
  qed
qed

lemma py_max_loop_ints: "py_max_loop (JInt c) (map JInt is) = Inr (JInt (fold max is c))"
proof (induction "is" arbitrary: c)
  case Nil
  then show ?case by simp
next
  case (Cons a "is")
  show ?case
  proof (cases "c < a")
    case True
    then have "max a c = a" by simp
    with True Cons.IH[of a] show ?thesis by simp
  next
    case False
    then have "max a c = c" by simp
    with False Cons.IH[of c] show ?thesis by simp
  qed
qed

lemma py_min_ints: "is \<noteq> [] \<Longrightarrow> py_min (map JInt is) = Inr (JInt (Min (set is)))"
proof (cases "is")
  case Nil
  assume "is \<noteq> []"
  with Nil show ?thesis by simp
next
  case (Cons a list)
  show ?thesis
    unfolding Cons Min.set_eq_fold by (simp add: py_min_def py_min_loop_ints)
qed

lemma py_max_ints: "is \<noteq> [] \<Longrightarrow> py_max (map JInt is) = Inr (JInt (Max (set is)))"
proof (cases "is")
  case Nil
  assume "is \<noteq> []"
  with Nil show ?thesis by simp
next
  case (Cons a list)
  show ?thesis
    unfolding Cons Max.set_eq_fold by (simp add: py_max_def py_max_loop_ints)
qed

lemma example_filtered_models:
  "filtered_models null_reader ''motion'' () = [[(''id'', JInt 1), (''number'', JNull)]]"
  "filtered_models int_reader ''motion'' ()
     = [[(''id'', JInt 1), (''number'', JInt 7)], [(''id'', JInt 2)],
        [(''id'', JInt 3), (''number'', JInt 4)]]"
  by (simp_all add: filtered_models_def reader_filter_def dict_of_items_def null_reader_def
      int_reader_def models_of_collection_def)

text \<open>
  Claim C10, as stated, fails for \<open>min\<close> and \<open>max\<close>: when the only model that \<open>filter\<close>
  returns holds the field with the value \<open>None\<close>, the list of values is \<open>[None]\<close>, which is
  not empty, and \<open>min\<close> and \<open>max\<close> of it are \<open>None\<close>, although a returned model contains
  the field.
\<close>

theorem C10_counterexample:
  "filtered_models null_reader ''motion'' () = [[(''id'', JInt 1), (''number'', JNull)]]
   \<and> contains_field [(''id'', JInt 1), (''number'', JNull)] ''number''
   \<and> reader_min null_reader ''motion'' () ''number'' = Inr JNull
   \<and> reader_max null_reader ''motion'' () ''number'' = Inr JNull"
  using example_filtered_models(1)
  by (simp add: contains_field_def reader_min_def reader_max_def minmax_def filtered_models_def
      py_min_def py_max_def)

text \<open>
  Claim C10, amended. \<open>exists\<close> is true if and only if \<open>count\<close> is positive; \<open>count\<close> is
  the number of models that \<open>filter\<close> returns; \<open>min\<close> and \<open>max\<close> return \<open>None\<close> when no
  returned model contains the field, and, when no returned model holds the field with the
  value \<open>None\<close>, only then. When the values of the field are integers, \<open>min\<close> returns the
  least and \<open>max\<close> the greatest of them.
\<close>

theorem C10_memory_reader:
  "(reader_exists self c flt \<longleftrightarrow> reader_count self c flt > 0)
   \<and> reader_count self c flt = int (length (reader_filter self c flt))
   \<and> reader_count self c flt = int (length (filtered_models self c flt))
   \<and> ((\<forall>model \<in> set (filtered_models self c flt). \<not> contains_field model field) \<longrightarrow>
        reader_min self c flt field = Inr JNull \<and> reader_max self c flt field = Inr JNull)
   \<and> ((\<forall>model \<in> set (filtered_models self c flt). map_of model field \<noteq> Some JNull) \<longrightarrow>
        (reader_min self c flt field = Inr JNull
           \<longleftrightarrow> (\<forall>model \<in> set (filtered_models self c flt). \<not> contains_field model field))
        \<and> (reader_max self c flt field = Inr JNull
           \<longleftrightarrow> (\<forall>model \<in> set (filtered_models self c flt). \<not> contains_field model field)))
   \<and> (is \<noteq> [] \<and> List.map_filter (\<lambda>model. map_of model field) (filtered_models self c flt)
          = map JInt is \<longrightarrow>
        reader_min self c flt field = Inr (JInt (Min (set is)))
        \<and> reader_max self c flt field = Inr (JInt (Max (set is))))"
proof -
  have e: "reader_exists self c flt \<longleftrightarrow> reader_count self c flt > 0"
    by (simp add: reader_exists_def)
  have n: "reader_count self c flt = int (length (reader_filter self c flt))"
    by (simp add: reader_count_def)
  have n': "reader_count self c flt = int (length (filtered_models self c flt))"
    by (simp add: reader_count_def filtered_models_def)
  have none: "(\<forall>model \<in> set (filtered_models self c flt). \<not> contains_field model field) \<longrightarrow>
        reader_min self c flt field = Inr JNull \<and> reader_max self c flt field = Inr JNull"
    by (simp add: reader_min_def reader_max_def minmax_none)
  have iff: "(\<forall>model \<in> set (filtered_models self c flt). map_of model field \<noteq> Some JNull) \<longrightarrow>
        (reader_min self c flt field = Inr JNull
           \<longleftrightarrow> (\<forall>model \<in> set (filtered_models self c flt). \<not> contains_field model field))
        \<and> (reader_max self c flt field = Inr JNull
           \<longleftrightarrow> (\<forall>model \<in> set (filtered_models self c flt). \<not> contains_field model field))"
  proof
    assume nn: "\<forall>model \<in> set (filtered_models self c flt). map_of model field \<noteq> Some JNull"
    from minmax_null_iff[of py_min, OF py_min_mem nn] minmax_null_iff[of py_max, OF py_max_mem nn]
    show "(reader_min self c flt field = Inr JNull
           \<longleftrightarrow> (\<forall>model \<in> set (filtered_models self c flt). \<not> contains_field model field))
        \<and> (reader_max self c flt field = Inr JNull
           \<longleftrightarrow> (\<forall>model \<in> set (filtered_models self c flt). \<not> contains_field model field))"
      by (simp add: reader_min_def reader_max_def)
  qed
  have ints: "is \<noteq> [] \<and> List.map_filter (\<lambda>model. map_of model field) (filtered_models self c flt)
          = map JInt is \<longrightarrow>
        reader_min self c flt field = Inr (JInt (Min (set is)))
        \<and> reader_max self c flt field = Inr (JInt (Max (set is)))"
  proof
    assume a: "is \<noteq> [] \<and> List.map_filter (\<lambda>model. map_of model field) (filtered_models self c flt)
          = map JInt is"
    then have v: "List.map_filter (\<lambda>model. map_of model field) (map snd (reader_filter self c flt))
          = map JInt is" and ne: "is \<noteq> []"
      by (simp_all add: filtered_models_def)
    show "reader_min self c flt field = Inr (JInt (Min (set is)))
        \<and> reader_max self c flt field = Inr (JInt (Max (set is)))"
      using ne by (simp add: reader_min_def reader_max_def minmax_def v py_min_ints py_max_ints)
  qed
  from e n n' none iff ints show ?thesis by (intro conjI)
qed

theorem C10_memory_reader_witness:
  "list_all (\<lambda>model. map_of model ''number'' \<noteq> Some JNull) (filtered_models int_reader ''motion'' ())
   \<and> list_ex (\<lambda>model. contains_field model ''number'') (filtered_models int_reader ''motion'' ())
   \<and> reader_min int_reader ''motion'' () ''number'' = Inr (JInt 4)
   \<and> reader_max int_reader ''motion'' () ''number'' = Inr (JInt 7)
   \<and> list_all (\<lambda>model. \<not> contains_field model ''title'') (filtered_models int_reader ''motion'' ())
   \<and> reader_min int_reader ''motion'' () ''title'' = Inr JNull
   \<and> reader_max int_reader ''motion'' () ''title'' = Inr JNull
   \<and> reader_exists int_reader ''motion'' ()
   \<and> reader_count int_reader ''motion'' () = 3"
proof -
  have vals: "[7, 4] \<noteq> ([]::int list)
     \<and> List.map_filter (\<lambda>model. map_of model ''number'') (filtered_models int_reader ''motion'' ())
       = map JInt [7, 4]"
    by (simp add: example_filtered_models)
  have none: "\<forall>model \<in> set (filtered_models int_reader ''motion'' ()). \<not> contains_field model ''title''"
    by (simp add: example_filtered_models contains_field_def)
  from C10_memory_reader [of int_reader "''motion''" "()" "''number''" "[7, 4]"]
    C10_memory_reader [of int_reader "''motion''" "()" "''title''" "[]"] vals none
  show ?thesis
    by (simp add: example_filtered_models contains_field_def)
qed

end
